theory Spec2Isabelle
  imports Complex_Main
begin

section \<open>Host language: strings, numbers, clock and dates\<close>

text \<open>
  The borrowing engine is the class \<open>BorrowingSystem\<close> of \<open>js/borrowing-system.js\<close>.
  Its methods are embedded as functions that take the object's state and return the
  method's result together with the state after the call.

  Conventions of the embedding.
  \<^item> A string is a \<open>char list\<close>; a character stands for a code point below 256
    (ISO-8859-1), the range on which \<open>trim\<close> and \<open>toLowerCase\<close> are written out.
  \<^item> A date is its time value: the integer number of milliseconds since the epoch.
    The source stores dates as ISO strings (\<open>toISOString\<close>) and reads them back with
    \<open>new Date(string)\<close>; on valid time values that is the identity.
  \<^item> A number that is a count of days is an \<open>int\<close>. Money (fine amounts, the daily
    rate) is a \<open>rat\<close>, the value of a finite double; the product of the source is the
    product of doubles, the exact product rounded to the nearest double (\<open>round64\<close>).
    Infinite results and NaN are not modelled.
  \<^item> An optional argument is an \<open>option\<close>: \<open>None\<close> is the omitted argument.
  \<^item> The writes to \<open>localStorage\<close> (\<open>saveBorrowers\<close>, \<open>saveTransactions\<close>) copy the
    arrays to the browser's store and are never read back by a method; they are left
    out of the state.
\<close>

subsection \<open>String.prototype.trim and toLowerCase\<close>

definition isWhiteSpace :: "char \<Rightarrow> bool" where
  "isWhiteSpace c = ((of_char c :: nat) \<in> {9, 10, 11, 12, 13, 32, 160})"

definition trim :: "string \<Rightarrow> string" where
  "trim s = rev (dropWhile isWhiteSpace (rev (dropWhile isWhiteSpace s)))"

definition lowerChar :: "char \<Rightarrow> char" where
  "lowerChar c =
     (let n = (of_char c :: nat)
      in if (65 \<le> n \<and> n \<le> 90) \<or> (192 \<le> n \<and> n \<le> 222 \<and> n \<noteq> 215)
         then char_of (n + 32) else c)"

definition toLowerCase :: "string \<Rightarrow> string" where
  "toLowerCase s = map lowerChar s"

subsection \<open>Validator.sanitize\<close>

text \<open>
  \<open>Validator.sanitize\<close> writes the input into a DOM text node, reads the element's
  \<open>innerHTML\<close> and trims it. Serialising a text node escapes \<open>&\<close>, \<open><\<close>, \<open>>\<close> and the
  no-break space.
\<close>

definition escapeChar :: "char \<Rightarrow> string" where
  "escapeChar c =
     (if c = CHR ''&'' then ''&amp;''
      else if c = CHR ''<'' then ''&lt;''
      else if c = CHR ''>'' then ''&gt;''
      else if (of_char c :: nat) = 160 then ''&nbsp;''
      else [c])"

definition innerHTML :: "string \<Rightarrow> string" where
  "innerHTML s = concat (map escapeChar s)"

definition sanitize :: "string \<Rightarrow> string" where
  "sanitize input = trim (innerHTML input)"

subsection \<open>Number.prototype.toString on integers\<close>

definition digitChar :: "nat \<Rightarrow> char" where
  "digitChar d = ''0123456789'' ! d"

fun digits :: "nat \<Rightarrow> string" where
  "digits n =
     (if n < 10 then [digitChar n]
      else digits (n div 10) @ [digitChar (n mod 10)])"

declare digits.simps [simp del]

definition toString :: "int \<Rightarrow> string" where
  "toString i = (if i < 0 then CHR ''-'' # digits (nat (- i)) else digits (nat i))"

subsection \<open>Number: the product of doubles\<close>

text \<open>
  A finite double is a multiple of \<open>2 ^ e\<close> by an integer below \<open>2 ^ 53\<close> in magnitude,
  with \<open>e \<ge> - 1074\<close>. \<open>round64 x\<close> is the double nearest to \<open>x\<close>, the even one of two
  that are equally near: with \<open>ilog2 x\<close> the integer part of the binary logarithm,
  \<open>x\<close> is scaled to 53 significant bits (fewer in the subnormal range), rounded to
  an integer, half to even, and scaled back.
\<close>

function bitLength :: "int \<Rightarrow> int" where
  "bitLength n = (if n \<le> 0 then 0 else 1 + bitLength (n div 2))"
  by pat_completeness auto
termination
  by (relation "measure nat") auto

declare bitLength.simps [simp del]

definition pow2 :: "int \<Rightarrow> rat" where
  "pow2 k = (if 0 \<le> k then 2 ^ nat k else 1 / 2 ^ nat (- k))"

definition ilog2 :: "rat \<Rightarrow> int" where
  "ilog2 x =
     (if 1 \<le> x then bitLength \<lfloor>x\<rfloor> - 1
      else - bitLength (\<lceil>1 / x\<rceil> - 1))"

definition roundHalfEven :: "rat \<Rightarrow> int" where
  "roundHalfEven x =
     (let f = \<lfloor>x\<rfloor>; r = x - rat_of_int f
      in if r < 1 / 2 then f
         else if 1 / 2 < r then f + 1
         else if even f then f else f + 1)"

definition round64 :: "rat \<Rightarrow> rat" where
  "round64 x =
     (if x = 0 then 0
      else
        (let e = max (ilog2 \<bar>x\<bar> - 52) (- 1074)
         in rat_of_int (roundHalfEven (x / pow2 e)) * pow2 e))"

definition isDouble :: "rat \<Rightarrow> bool" where
  "isDouble x = (round64 x = x)"

text \<open>
  \<open>daysOverdue * dailyFine\<close>. The day count is an integer held in a double. A date
  holds a time value of at most 8640000000000000 ms in magnitude, so the day count of
  the program is far below \<open>2 ^ 53\<close>, where a double holds every integer and the product
  of doubles is the exact product rounded. For a count beyond \<open>2 ^ 53\<close>, which two
  dates cannot give, \<open>times64\<close> is the exact product.
\<close>

definition times64 :: "int \<Rightarrow> rat \<Rightarrow> rat" where
  "times64 d r = (if \<bar>d\<bar> \<le> 2 ^ 53 then round64 (rat_of_int d * r) else rat_of_int d * r)"

subsection \<open>Clock and local time zone\<close>

text \<open>
  A method reads the clock (\<open>new Date()\<close>, \<open>Date.now()\<close>) up to three times; \<open>clock h k\<close>
  is the value of the \<open>k\<close>-th reading of the call, counted from 0. \<open>localTZA h t isUTC\<close>
  is the offset of the local time zone in milliseconds, as in ECMAScript's
  \<open>LocalTZA(t, isUTC)\<close>: for a UTC time value when \<open>isUTC\<close> holds, for a local one
  otherwise.
\<close>

record host =
  clock :: "nat \<Rightarrow> int"
  localTZA :: "int \<Rightarrow> bool \<Rightarrow> int"

definition msPerDay :: int where
  "msPerDay = 1000 * 60 * 60 * 24"

definition Day :: "int \<Rightarrow> int" where
  "Day t = t div msPerDay"

definition TimeWithinDay :: "int \<Rightarrow> int" where
  "TimeWithinDay t = t mod msPerDay"

definition MakeDate :: "int \<Rightarrow> int \<Rightarrow> int" where
  "MakeDate day time = day * msPerDay + time"

definition LocalTime :: "host \<Rightarrow> int \<Rightarrow> int" where
  "LocalTime h t = t + localTZA h t True"

definition UTC :: "host \<Rightarrow> int \<Rightarrow> int" where
  "UTC h t = t - localTZA h t False"

definition TimeClip :: "int \<Rightarrow> int option" where
  "TimeClip time = (if \<bar>time\<bar> > 8640000000000000 then None else Some time)"

text \<open>
  \<open>d.setDate(d.getDate() + n)\<close> on the date with time value \<open>t\<close>. \<open>getDate\<close> is the day
  of the month of the local time; \<open>setDate\<close> rebuilds the date from the local year and
  month, the new day of the month and the local time within the day, which is the
  day number of the local time moved by \<open>n\<close>; the result is converted back to UTC and
  clipped. \<open>None\<close> is the invalid date.
\<close>

definition setDate_getDate_plus :: "host \<Rightarrow> int \<Rightarrow> int \<Rightarrow> int option" where
  "setDate_getDate_plus h t n =
     (let lt = LocalTime h t;
          newDate = MakeDate (Day lt + n) (TimeWithinDay lt)
      in TimeClip (UTC h newDate))"

section \<open>Data model\<close>

datatype status = Active | Returned

record borrowerData =
  name :: string
  email :: "string option"
  phone :: "string option"
  address :: "string option"

record borrower =
  id_b :: string
  name_b :: string
  email_b :: string
  phone_b :: string
  address_b :: string
  createdAt_b :: int

record transaction =
  id_t :: string
  bookId :: string
  borrowerId :: string
  checkoutDate :: int
  dueDate :: int
  returnDate :: "int option"
  status :: status
  fineAmount :: rat
  createdAt_t :: int

record state =
  borrowers :: "borrower list"
  transactions :: "transaction list"

text \<open>The constructor sets \<open>defaultLoanDays\<close> to 14 and no method assigns it.\<close>

definition defaultLoanDays :: int where
  "defaultLoanDays = 14"

text \<open>
  A method returns \<open>{success: true, ...}\<close> or \<open>{success: false, error: message}\<close>; the
  failure kinds stand for the messages of the source. \<open>RangeError\<close> is the exception
  that \<open>toISOString\<close> throws on an invalid date.
\<close>

datatype error =
    MissingName
  | DuplicateEmail
  | BorrowerNotFound
  | ItemAlreadyCheckedOut
  | TransactionNotFound
  | TransactionNotActive

fun message :: "error \<Rightarrow> string" where
  "message MissingName = ''Borrower name is required''"
| "message DuplicateEmail = ''Borrower with this email already exists''"
| "message BorrowerNotFound = ''Borrower not found''"
| "message ItemAlreadyCheckedOut = ''This book is already checked out''"
| "message TransactionNotFound = ''Transaction not found''"
| "message TransactionNotActive = ''This book is not currently checked out''"

datatype 'a outcome = Success 'a | Failure error | RangeError

section \<open>The methods of BorrowingSystem\<close>

text \<open>A string is truthy when it is not empty.\<close>

definition truthy :: "string option \<Rightarrow> bool" where
  "truthy v = (case v of None \<Rightarrow> False | Some x \<Rightarrow> x \<noteq> [])"

definition sanitizeOpt :: "string option \<Rightarrow> string" where
  "sanitizeOpt v = (if truthy v then sanitize (the v) else [])"

definition registerBorrower :: "state \<Rightarrow> host \<Rightarrow> borrowerData \<Rightarrow> borrower outcome \<times> state" where
  "registerBorrower s h d =
     (if name d = [] \<or> length (trim (name d)) = 0 then (Failure MissingName, s)
      else if truthy (email d) \<and>
              find (\<lambda>b. email_b b \<noteq> [] \<and>
                         toLowerCase (email_b b) = toLowerCase (the (email d)))
                   (borrowers s) \<noteq> None
      then (Failure DuplicateEmail, s)
      else
        let b = \<lparr> id_b = toString (clock h 0),
                  name_b = sanitize (name d),
                  email_b = sanitizeOpt (email d),
                  phone_b = sanitizeOpt (phone d),
                  address_b = sanitizeOpt (address d),
                  createdAt_b = clock h 1 \<rparr>
        in (Success b, s\<lparr>borrowers := borrowers s @ [b]\<rparr>))"

text \<open>
  \<open>loanDays || this.defaultLoanDays\<close>: a missing or zero \<open>loanDays\<close> is falsy and gives
  the default.
\<close>

definition effectiveLoanDays :: "int option \<Rightarrow> int" where
  "effectiveLoanDays loanDays =
     (case loanDays of
        None \<Rightarrow> defaultLoanDays
      | Some n \<Rightarrow> if n = 0 then defaultLoanDays else n)"

definition checkoutBook ::
  "state \<Rightarrow> host \<Rightarrow> string \<Rightarrow> string \<Rightarrow> int option \<Rightarrow> transaction outcome \<times> state" where
  "checkoutBook s h bid brid loanDays =
     (case find (\<lambda>b. id_b b = brid) (borrowers s) of
        None \<Rightarrow> (Failure BorrowerNotFound, s)
      | Some b \<Rightarrow>
         (case find (\<lambda>t. bookId t = bid \<and> status t = Active) (transactions s) of
            Some activeTransaction \<Rightarrow> (Failure ItemAlreadyCheckedOut, s)
          | None \<Rightarrow>
             (let checkoutDate' = clock h 0
              in case setDate_getDate_plus h checkoutDate' (effectiveLoanDays loanDays) of
                   None \<Rightarrow> (RangeError, s)
                 | Some dueDate' \<Rightarrow>
                    (let t = \<lparr> id_t = toString (clock h 1),
                               bookId = bid,
                               borrowerId = brid,
                               checkoutDate = checkoutDate',
                               dueDate = dueDate',
                               returnDate = None,
                               status = Active,
                               fineAmount = 0,
                               createdAt_t = clock h 2 \<rparr>
                     in (Success t, s\<lparr>transactions := transactions s @ [t]\<rparr>)))))"

text \<open>
  \<open>returnBook\<close> assigns to the fields of the object that \<open>find\<close> returned, the first
  element of the array with the identifier: \<open>update_first\<close> is that assignment.
\<close>

fun update_first :: "('a \<Rightarrow> bool) \<Rightarrow> ('a \<Rightarrow> 'a) \<Rightarrow> 'a list \<Rightarrow> 'a list" where
  "update_first P f [] = []"
| "update_first P f (x # xs) = (if P x then f x # xs else x # update_first P f xs)"

definition markReturned :: "int \<Rightarrow> rat \<Rightarrow> transaction \<Rightarrow> transaction" where
  "markReturned now fine t = t\<lparr> returnDate := Some now, status := Returned, fineAmount := fine \<rparr>"

definition returnBook ::
  "state \<Rightarrow> host \<Rightarrow> string \<Rightarrow> rat option \<Rightarrow> transaction outcome \<times> state" where
  "returnBook s h tid fineAmount' =
     (let fine = (case fineAmount' of None \<Rightarrow> 0 | Some v \<Rightarrow> v)
      in case find (\<lambda>t. id_t t = tid) (transactions s) of
           None \<Rightarrow> (Failure TransactionNotFound, s)
         | Some t \<Rightarrow>
            if status t \<noteq> Active then (Failure TransactionNotActive, s)
            else (Success (markReturned (clock h 0) fine t),
                  s\<lparr>transactions :=
                       update_first (\<lambda>t. id_t t = tid) (markReturned (clock h 0) fine)
                         (transactions s)\<rparr>))"

definition getActiveTransactions :: "state \<Rightarrow> string \<Rightarrow> transaction list \<times> state" where
  "getActiveTransactions s bid =
     (filter (\<lambda>t. bookId t = bid \<and> status t = Active) (transactions s), s)"

definition getOverdueBooks :: "state \<Rightarrow> host \<Rightarrow> transaction list \<times> state" where
  "getOverdueBooks s h =
     (let now = clock h 0
      in (filter (\<lambda>t. if status t \<noteq> Active then False else dueDate t < now)
            (transactions s), s))"

text \<open>
  The difference of the two dates and its quotient by the milliseconds of a day are
  read exactly, as the doubles of the source give them when the dates are less than
  \<open>2 ^ 53\<close> ms, some 285000 years, apart; the product with the daily rate is the
  product of doubles.
\<close>

definition calculateFine :: "state \<Rightarrow> host \<Rightarrow> string \<Rightarrow> rat option \<Rightarrow> rat \<times> state" where
  "calculateFine s h tid dailyFine' =
     (let dailyFine = (case dailyFine' of None \<Rightarrow> 1 / 2 | Some r \<Rightarrow> r)
      in case find (\<lambda>t. id_t t = tid) (transactions s) of
           None \<Rightarrow> (0, s)
         | Some t \<Rightarrow>
            if status t \<noteq> Active then (0, s)
            else
              (let now = clock h 0; dueDate' = dueDate t
               in if now \<le> dueDate' then (0, s)
                  else
                    (let daysOverdue = \<lceil>rat_of_int (now - dueDate') / rat_of_int msPerDay\<rceil>
                     in (times64 daysOverdue dailyFine, s))))"

section \<open>Sequences of calls\<close>

datatype call =
    RegisterBorrower host borrowerData
  | CheckoutBook host string string "int option"
  | ReturnBook host string "rat option"
  | CalculateFine host string "rat option"
  | GetOverdueBooks host
  | GetActiveTransactions string

fun exec :: "state \<Rightarrow> call \<Rightarrow> state" where
  "exec s (RegisterBorrower h d) = snd (registerBorrower s h d)"
| "exec s (CheckoutBook h bid brid loanDays) = snd (checkoutBook s h bid brid loanDays)"
| "exec s (ReturnBook h tid fine) = snd (returnBook s h tid fine)"
| "exec s (CalculateFine h tid dailyFine) = snd (calculateFine s h tid dailyFine)"
| "exec s (GetOverdueBooks h) = snd (getOverdueBooks s h)"
| "exec s (GetActiveTransactions bid) = snd (getActiveTransactions s bid)"

definition execs :: "state \<Rightarrow> call list \<Rightarrow> state" where
  "execs s cs = foldl exec s cs"

text \<open>The empty ledger, with any borrower directory.\<close>

definition emptyLedger :: "borrower list \<Rightarrow> state" where
  "emptyLedger bs = \<lparr> borrowers = bs, transactions = [] \<rparr>"

section \<open>Vocabulary of the properties\<close>

text \<open>\<open>first_at P xs i\<close>: \<open>i\<close> is the position of the element that \<open>find P\<close> returns.\<close>

definition first_at :: "('a \<Rightarrow> bool) \<Rightarrow> 'a list \<Rightarrow> nat \<Rightarrow> bool" where
  "first_at P xs i = (i < length xs \<and> P (xs ! i) \<and> (\<forall>j<i. \<not> P (xs ! j)))"

text \<open>A call that passes no negative fine to \<open>returnBook\<close>.\<close>

fun nonneg_fine :: "call \<Rightarrow> bool" where
  "nonneg_fine (ReturnBook h tid (Some v)) = (0 \<le> v)"
| "nonneg_fine c = True"

text \<open>
  The two ways in which a call changes the ledger: a checkout appends an active
  transaction with no fine for an item that has no active transaction, a return
  marks the first transaction with the identifier, an active one, as returned.
\<close>

definition appended :: "transaction list \<Rightarrow> transaction list \<Rightarrow> bool" where
  "appended txs txs' =
     (\<exists>t. status t = Active \<and> fineAmount t = 0 \<and> returnDate t = None \<and>
          (\<forall>u\<in>set txs. \<not> (bookId u = bookId t \<and> status u = Active)) \<and>
          txs' = txs @ [t])"

definition returned_one :: "bool \<Rightarrow> transaction list \<Rightarrow> transaction list \<Rightarrow> bool" where
  "returned_one nonneg txs txs' =
     (\<exists>i now fine. first_at (\<lambda>t. id_t t = id_t (txs ! i)) txs i \<and>
          status (txs ! i) = Active \<and> (nonneg \<longrightarrow> 0 \<le> fine) \<and>
          txs' = txs[i := markReturned now fine (txs ! i)])"

text \<open>
  The email a registration supplies, the empty string when it supplies none, and the
  registrations of a sequence of calls that succeeded, in order: the borrowers of the
  directory, by what they supplied.
\<close>

definition suppliedEmail :: "borrowerData \<Rightarrow> string" where
  "suppliedEmail d = (case email d of None \<Rightarrow> [] | Some e \<Rightarrow> e)"

fun accepted :: "state \<Rightarrow> call list \<Rightarrow> borrowerData list" where
  "accepted s [] = []"
| "accepted s (c # cs) =
     (case c of
        RegisterBorrower h d \<Rightarrow>
          (case fst (registerBorrower s h d) of Success b \<Rightarrow> [d] | _ \<Rightarrow> [])
      | _ \<Rightarrow> []) @ accepted (exec s c) cs"

section \<open>A scenario\<close>

text \<open>
  A host in the UTC zone whose clock reads \<open>t\<close>, and a host in a zone that moves
  from five to four hours behind UTC at 2024-03-10T07:00:00Z (1710054000000).
\<close>

definition utcHost :: "int \<Rightarrow> host" where
  "utcHost t = \<lparr> clock = (\<lambda>k. t), localTZA = (\<lambda>t isUTC. 0) \<rparr>"

definition easternHost :: "int \<Rightarrow> host" where
  "easternHost t =
     \<lparr> clock = (\<lambda>k. t),
       localTZA = (\<lambda>t isUTC.
         if isUTC then (if t < 1710054000000 then - 18000000 else - 14400000)
         else (if t < 1710036000000 then - 18000000 else - 14400000)) \<rparr>"

definition ada :: borrowerData where
  "ada = \<lparr> name = ''Ada'', email = Some ''A@x.com'', phone = None, address = None \<rparr>"

text \<open>
  Ada registers when the clock reads 1704000000000 and checks out ITEM1 for 14 days at
  2024-01-01T00:00:00Z (1704067200000); the item comes back at 2024-01-16T00:00:00Z
  (1705363200000) with a fine of one half.
\<close>

definition registered :: state where
  "registered = execs (emptyLedger []) [RegisterBorrower (utcHost 1704000000000) ada]"

definition loaned :: state where
  "loaned = execs registered
     [CheckoutBook (utcHost 1704067200000) ''ITEM1'' ''1704000000000'' (Some 14)]"

definition returned :: state where
  "returned = execs loaned
     [ReturnBook (utcHost 1705363200000) ''1704067200000'' (Some (1 / 2))]"

text \<open>ITEM1 is checked out again at 2024-01-17T00:00:00Z, with no loan period given.\<close>

definition reloaned :: state where
  "reloaned = execs returned
     [CheckoutBook (utcHost 1705449600000) ''ITEM1'' ''1704000000000'' None]"

text \<open>The first loan returned with a negative fine instead.\<close>

definition refunded :: state where
  "refunded = execs loaned
     [ReturnBook (utcHost 1705363200000) ''1704067200000'' (Some (- 1))]"

text \<open>
  Further registrations: no email, a blank name, an email with an ampersand, and Ada's
  email in other letter case.
\<close>

definition bob :: borrowerData where
  "bob = \<lparr> name = ''Bob'', email = None, phone = None, address = None \<rparr>"

definition blank :: borrowerData where
  "blank = \<lparr> name = ''   '', email = Some ''a@X.COM'', phone = None, address = None \<rparr>"

definition amp :: borrowerData where
  "amp = \<lparr> name = ''Amp'', email = Some ''a&b@x.com'', phone = None, address = None \<rparr>"

definition lovelace :: borrowerData where
  "lovelace = \<lparr> name = ''Lovelace'', email = Some ''a@X.COM'', phone = None, address = None \<rparr>"

section \<open>Lemmas about the list operations\<close>

lemma first_at_unique: "first_at P xs i \<Longrightarrow> first_at P xs k \<Longrightarrow> i = k"
  unfolding first_at_def by (metis linorder_neqE_nat)

lemma first_at_find: "first_at P xs i \<Longrightarrow> find P xs = Some (xs ! i)"
  unfolding first_at_def by (auto simp: find_Some_iff)

lemma find_first_at: "find P xs = Some x \<Longrightarrow> \<exists>i. first_at P xs i \<and> xs ! i = x"
  unfolding first_at_def by (auto simp: find_Some_iff)

lemma update_first_at: "first_at P xs i \<Longrightarrow> update_first P f xs = xs[i := f (xs ! i)]"
proof (induction xs arbitrary: i)
  case Nil
  then show ?case by (simp add: first_at_def)
next
  case (Cons y ys)
  show ?case
  proof (cases i)
    case 0
    with Cons.prems show ?thesis by (simp add: first_at_def)
  next
    case (Suc k)
    with Cons.prems have "\<not> P y" "first_at P ys k"
      by (auto simp: first_at_def)
    with Cons.IH[of k] Suc show ?thesis by simp
  qed
qed

lemma filter_update_le:
  "\<not> Q y \<Longrightarrow> length (filter Q (xs[i := y])) \<le> length (filter Q xs)"
proof (induction xs arbitrary: i)
  case Nil
  then show ?case by simp
next
  case (Cons x xs)
  then show ?case by (cases i) (auto simp: le_SucI)
qed

lemma first_at_append:
  "i < length xs \<Longrightarrow> first_at P (xs @ ys) i = first_at P xs i"
  by (auto simp: first_at_def nth_append)

lemma first_at_same_ids:
  assumes "map id_t txs' = map id_t txs"
  shows "first_at (\<lambda>t. id_t t = x) txs' i = first_at (\<lambda>t. id_t t = x) txs i"
proof -
  have len: "length txs' = length txs" using assms by (rule map_eq_imp_length_eq)
  have "id_t (txs' ! j) = id_t (txs ! j)" if "j < length txs" for j
    using that assms len by (metis nth_map)
  with len show ?thesis by (auto simp: first_at_def)
qed

lemma map_update_same: "(map f xs)[k := f (xs ! k)] = map f xs"
  by (metis list_update_id map_update)

section \<open>Lemmas about rounding\<close>

lemma bitLength_nonneg: "0 \<le> bitLength n"
  by (induction n rule: bitLength.induct) (subst bitLength.simps, simp)

lemma bitLength_pos: "0 < n \<Longrightarrow> 1 \<le> bitLength n"
  using bitLength_nonneg[of "n div 2"] by (subst bitLength.simps) simp

lemma bitLength_upper: "n < 2 ^ nat (bitLength n)"
proof (induction n rule: bitLength.induct)
  case (1 n)
  show ?case
  proof (cases "n \<le> 0")
    case True
    then show ?thesis by (subst bitLength.simps) simp
  next
    case False
    then have ih: "n div 2 < 2 ^ nat (bitLength (n div 2))" using 1 by simp
    have bl: "bitLength n = 1 + bitLength (n div 2)"
      using False by (subst bitLength.simps) simp
    have "nat (1 + bitLength (n div 2)) = Suc (nat (bitLength (n div 2)))"
      using bitLength_nonneg[of "n div 2"] by simp
    then have "(2::int) ^ nat (bitLength n) = 2 * 2 ^ nat (bitLength (n div 2))"
      by (simp add: bl)
    moreover have "n < 2 * (n div 2 + 1)" by simp
    ultimately show ?thesis using ih by linarith
  qed
qed

lemma bitLength_lower: "0 < n \<Longrightarrow> 2 ^ nat (bitLength n - 1) \<le> n"
proof (induction n rule: bitLength.induct)
  case (1 n)
  then have pos: "\<not> n \<le> 0" by simp
  have bl: "bitLength n = 1 + bitLength (n div 2)"
    using pos by (subst bitLength.simps) simp
  show ?case
  proof (cases "n div 2 = 0")
    case True
    then have "bitLength (n div 2) = 0" by (subst bitLength.simps) simp
    with bl 1(2) show ?thesis by simp
  next
    case False
    then have h: "0 < n div 2" using 1(2) by (simp add: pos_imp_zdiv_pos_iff)
    from 1(1)[OF pos h] have ih: "2 ^ nat (bitLength (n div 2) - 1) \<le> n div 2" .
    have "nat (bitLength (n div 2)) = Suc (nat (bitLength (n div 2) - 1))"
      using bitLength_pos[OF h] by simp
    then have "(2::int) ^ nat (bitLength n - 1) = 2 * 2 ^ nat (bitLength (n div 2) - 1)"
      by (simp add: bl)
    moreover have "2 * (n div 2) \<le> n" by simp
    ultimately show ?thesis using ih by linarith
  qed
qed

lemma pow2_pos: "0 < pow2 k"
  by (simp add: pow2_def)

lemma pow2_mono: "a \<le> b \<Longrightarrow> pow2 a \<le> pow2 b"
proof -
  assume ab: "a \<le> b"
  consider "0 \<le> a" | "a < 0" "0 \<le> b" | "b < 0" using ab by linarith
  then show ?thesis
  proof cases
    case 1
    with ab show ?thesis by (simp add: pow2_def power_increasing)
  next
    case 2
    have "1 / 2 ^ nat (- a) \<le> (1::rat)" by simp
    also have "(1::rat) \<le> 2 ^ nat b" by simp
    finally show ?thesis using 2 by (simp add: pow2_def)
  next
    case 3
    with ab have "nat (- b) \<le> nat (- a)" by simp
    then have "(2::rat) ^ nat (- b) \<le> 2 ^ nat (- a)" by (simp add: power_increasing)
    then have "1 / (2::rat) ^ nat (- a) \<le> 1 / 2 ^ nat (- b)"
      by (simp add: frac_le)
    with 3 ab show ?thesis by (simp add: pow2_def)
  qed
qed

lemma ilog2_lower: "0 < x \<Longrightarrow> pow2 (ilog2 x) \<le> x"
proof (cases "1 \<le> x")
  case True
  then have fl: "0 < \<lfloor>x\<rfloor>" by simp
  have "0 \<le> bitLength \<lfloor>x\<rfloor> - 1" using bitLength_pos[OF fl] by simp
  then have "pow2 (ilog2 x) = 2 ^ nat (bitLength \<lfloor>x\<rfloor> - 1)"
    using True by (simp add: ilog2_def pow2_def)
  also have "\<dots> = rat_of_int (2 ^ nat (bitLength \<lfloor>x\<rfloor> - 1))" by simp
  also have "\<dots> \<le> rat_of_int \<lfloor>x\<rfloor>"
    using bitLength_lower[OF fl] by (simp only: of_int_le_iff)
  also have "\<dots> \<le> x" by simp
  finally show ?thesis .
next
  case False
  assume x: "0 < x"
  let ?m = "\<lceil>1 / x\<rceil>"
  let ?j = "bitLength (?m - 1)"
  have inv: "1 < 1 / x" using x False by simp
  then have m2: "2 \<le> ?m" by (simp add: le_ceiling_iff)
  then have jpos: "1 \<le> ?j" using bitLength_pos[of "?m - 1"] by simp
  have "?m - 1 < 2 ^ nat ?j" by (rule bitLength_upper)
  then have "?m \<le> 2 ^ nat ?j" by simp
  then have "rat_of_int ?m \<le> rat_of_int (2 ^ nat ?j)" by (simp only: of_int_le_iff)
  also have "rat_of_int (2 ^ nat ?j) = 2 ^ nat ?j" by simp
  finally have "rat_of_int ?m \<le> 2 ^ nat ?j" .
  moreover have "1 / x \<le> rat_of_int ?m" by (rule le_of_int_ceiling)
  ultimately have "1 / x \<le> 2 ^ nat ?j" by (rule order_trans[rotated])
  then have "1 \<le> 2 ^ nat ?j * x" using x by (simp add: pos_divide_le_eq)
  then have "1 / 2 ^ nat ?j \<le> x" by (simp add: pos_divide_le_eq mult.commute)
  moreover have "pow2 (ilog2 x) = 1 / 2 ^ nat ?j"
    using False jpos by (simp add: ilog2_def pow2_def)
  ultimately show ?thesis by simp
qed

lemma ilog2_upper: "0 < x \<Longrightarrow> x < pow2 (ilog2 x + 1)"
proof (cases "1 \<le> x")
  case True
  then have fl: "0 < \<lfloor>x\<rfloor>" by simp
  have nn: "0 \<le> bitLength \<lfloor>x\<rfloor>" by (rule bitLength_nonneg)
  have "\<lfloor>x\<rfloor> + 1 \<le> 2 ^ nat (bitLength \<lfloor>x\<rfloor>)"
    using bitLength_upper[of "\<lfloor>x\<rfloor>"] by simp
  then have "rat_of_int (\<lfloor>x\<rfloor> + 1) \<le> rat_of_int (2 ^ nat (bitLength \<lfloor>x\<rfloor>))"
    by (simp only: of_int_le_iff)
  also have "rat_of_int (2 ^ nat (bitLength \<lfloor>x\<rfloor>)) = 2 ^ nat (bitLength \<lfloor>x\<rfloor>)" by simp
  finally have "rat_of_int (\<lfloor>x\<rfloor> + 1) \<le> 2 ^ nat (bitLength \<lfloor>x\<rfloor>)" .
  moreover have "x < rat_of_int (\<lfloor>x\<rfloor> + 1)" by linarith
  ultimately have "x < 2 ^ nat (bitLength \<lfloor>x\<rfloor>)" by (rule less_le_trans[rotated])
  moreover have "pow2 (ilog2 x + 1) = 2 ^ nat (bitLength \<lfloor>x\<rfloor>)"
    using True nn by (simp add: ilog2_def pow2_def)
  ultimately show ?thesis by simp
next
  case False
  assume x: "0 < x"
  let ?m = "\<lceil>1 / x\<rceil>"
  let ?j = "bitLength (?m - 1)"
  have inv: "1 < 1 / x" using x False by simp
  then have m2: "2 \<le> ?m" by (simp add: le_ceiling_iff)
  then have m1: "0 < ?m - 1" by simp
  have jpos: "1 \<le> ?j" using bitLength_pos[OF m1] .
  have "2 ^ nat (?j - 1) \<le> ?m - 1" using bitLength_lower[OF m1] .
  then have "rat_of_int (2 ^ nat (?j - 1)) \<le> rat_of_int (?m - 1)" by (simp only: of_int_le_iff)
  moreover have "rat_of_int (2 ^ nat (?j - 1)) = 2 ^ nat (?j - 1)" by simp
  moreover have "rat_of_int (?m - 1) < 1 / x" by linarith
  ultimately have lt: "2 ^ nat (?j - 1) < 1 / x" by linarith
  then have "2 ^ nat (?j - 1) * x < 1" using x by (simp add: pos_less_divide_eq)
  then have up: "x < 1 / 2 ^ nat (?j - 1)" by (simp add: pos_less_divide_eq mult.commute)
  have il: "ilog2 x + 1 = - (?j - 1)" using False by (simp add: ilog2_def)
  show ?thesis
  proof (cases "?j = 1")
    case True
    with up il show ?thesis by (simp add: pow2_def)
  next
    case False
    with jpos have "\<not> 0 \<le> - (?j - 1)" by simp
    then have "pow2 (- (?j - 1)) = 1 / 2 ^ nat (?j - 1)" by (simp add: pow2_def)
    with up il show ?thesis by simp
  qed
qed

lemma ilog2_less: "0 < x \<Longrightarrow> x < pow2 k \<Longrightarrow> ilog2 x < k"
proof (rule ccontr)
  assume x: "0 < x" "x < pow2 k" and "\<not> ilog2 x < k"
  then have "pow2 k \<le> pow2 (ilog2 x)" by (intro pow2_mono) simp
  also have "\<dots> \<le> x" using x(1) by (rule ilog2_lower)
  finally show False using x(2) by simp
qed

lemma roundHalfEven_of_int: "roundHalfEven (rat_of_int m) = m"
  by (simp add: roundHalfEven_def)

lemma round64_exact:
  assumes "x \<noteq> 0" "x / pow2 (max (ilog2 \<bar>x\<bar> - 52) (- 1074)) = rat_of_int m"
  shows "round64 x = x"
proof -
  let ?e = "max (ilog2 \<bar>x\<bar> - 52) (- 1074)"
  have "round64 x = rat_of_int (roundHalfEven (x / pow2 ?e)) * pow2 ?e"
    using assms(1) by (simp add: round64_def Let_def)
  also have "\<dots> = x / pow2 ?e * pow2 ?e"
    by (simp only: assms(2) roundHalfEven_of_int)
  also have "\<dots> = x" using pow2_pos[of ?e] by simp
  finally show ?thesis .
qed

lemma round64_half:
  assumes "1 \<le> d" "d < 2 ^ 53"
  shows "round64 (rat_of_int d * (1 / 2)) = rat_of_int d * (1 / 2)"
proof -
  define x where "x = rat_of_int d * (1 / 2)"
  define e where "e = max (ilog2 \<bar>x\<bar> - 52) (- 1074)"
  have pos: "0 < x" using assms(1) by (simp add: x_def)
  have "rat_of_int d < rat_of_int (2 ^ 53)" using assms(2) by (simp only: of_int_less_iff)
  then have "x < pow2 52" by (simp add: pow2_def x_def)
  with pos have "ilog2 x < 52" by (rule ilog2_less)
  moreover have "\<bar>x\<bar> = x" using pos by simp
  ultimately have neg: "\<not> 0 \<le> e" by (simp add: e_def)
  then obtain k where k: "nat (- e) = Suc k" by (cases "nat (- e)") simp_all
  have "pow2 e = 1 / 2 ^ nat (- e)" using neg by (simp only: pow2_def if_False)
  then have "pow2 e = 1 / 2 ^ Suc k" by (simp only: k)
  then have "x / pow2 e = rat_of_int (d * 2 ^ k)" by (simp add: x_def)
  then have "x / pow2 (max (ilog2 \<bar>x\<bar> - 52) (- 1074)) = rat_of_int (d * 2 ^ k)"
    by (simp only: e_def)
  moreover have "x \<noteq> 0" using pos by simp
  ultimately have "round64 x = x" by (rule round64_exact[rotated])
  then show ?thesis by (simp only: x_def)
qed

lemma times64_half:
  assumes "1 \<le> d"
  shows "times64 d (1 / 2) = rat_of_int d * (1 / 2)"
proof -
  consider "d < 2 ^ 53" | "d = 2 ^ 53" | "2 ^ 53 < d" by linarith
  then show ?thesis
  proof cases
    case 1
    with assms show ?thesis by (simp add: times64_def round64_half del: times_divide_eq_right)
  next
    case 2
    have "round64 (rat_of_int (2 ^ 53) * (1 / 2)) = rat_of_int (2 ^ 53) * (1 / 2)"
      by code_simp
    with 2 show ?thesis by (simp add: times64_def)
  next
    case 3
    then show ?thesis by (simp add: times64_def)
  qed
qed

lemma times64_one: "round64 r = r \<Longrightarrow> times64 1 r = r"
  by (simp add: times64_def)

section \<open>Evaluating the scenario\<close>

lemma toString_examples:
  "toString 1704000000000 = ''1704000000000''"
  "toString 1704067200000 = ''1704067200000''"
  by (simp_all add: toString_def digits.simps digitChar_def)

lemma sanitize_examples:
  "sanitize ''Ada'' = ''Ada''"
  "sanitize ''A@x.com'' = ''A@x.com''"
  by (simp_all add: sanitize_def innerHTML_def escapeChar_def trim_def isWhiteSpace_def)

lemma trim_examples:
  "trim ''Ada'' = ''Ada''"
  "trim ''   '' = []"
  by (simp_all add: trim_def isWhiteSpace_def)

lemma registered_eval:
  "registered =
     \<lparr> borrowers = [\<lparr> id_b = ''1704000000000'', name_b = ''Ada'', email_b = ''A@x.com'',
                      phone_b = [], address_b = [], createdAt_b = 1704000000000 \<rparr>],
       transactions = [] \<rparr>"
  by (simp add: registered_def execs_def emptyLedger_def registerBorrower_def ada_def
      utcHost_def truthy_def sanitizeOpt_def toString_examples sanitize_examples trim_examples
      Let_def)

lemma loaned_eval:
  "loaned =
     \<lparr> borrowers = [\<lparr> id_b = ''1704000000000'', name_b = ''Ada'', email_b = ''A@x.com'',
                      phone_b = [], address_b = [], createdAt_b = 1704000000000 \<rparr>],
       transactions =
         [\<lparr> id_t = ''1704067200000'', bookId = ''ITEM1'', borrowerId = ''1704000000000'',
            checkoutDate = 1704067200000, dueDate = 1705276800000, returnDate = None,
            status = Active, fineAmount = 0, createdAt_t = 1704067200000 \<rparr>] \<rparr>"
  by (simp add: loaned_def registered_eval execs_def checkoutBook_def utcHost_def
      effectiveLoanDays_def setDate_getDate_plus_def LocalTime_def UTC_def TimeClip_def
      MakeDate_def Day_def TimeWithinDay_def msPerDay_def toString_examples Let_def)

lemma returned_eval:
  "returned =
     \<lparr> borrowers = [\<lparr> id_b = ''1704000000000'', name_b = ''Ada'', email_b = ''A@x.com'',
                      phone_b = [], address_b = [], createdAt_b = 1704000000000 \<rparr>],
       transactions =
         [\<lparr> id_t = ''1704067200000'', bookId = ''ITEM1'', borrowerId = ''1704000000000'',
            checkoutDate = 1704067200000, dueDate = 1705276800000,
            returnDate = Some 1705363200000,
            status = Returned, fineAmount = 1 / 2, createdAt_t = 1704067200000 \<rparr>] \<rparr>"
  by (simp add: returned_def loaned_eval execs_def returnBook_def utcHost_def markReturned_def
      Let_def)

lemma reloaned_eval:
  "reloaned =
     \<lparr> borrowers = [\<lparr> id_b = ''1704000000000'', name_b = ''Ada'', email_b = ''A@x.com'',
                      phone_b = [], address_b = [], createdAt_b = 1704000000000 \<rparr>],
       transactions =
         [\<lparr> id_t = ''1704067200000'', bookId = ''ITEM1'', borrowerId = ''1704000000000'',
            checkoutDate = 1704067200000, dueDate = 1705276800000,
            returnDate = Some 1705363200000,
            status = Returned, fineAmount = 1 / 2, createdAt_t = 1704067200000 \<rparr>,
          \<lparr> id_t = ''1705449600000'', bookId = ''ITEM1'', borrowerId = ''1704000000000'',
            checkoutDate = 1705449600000, dueDate = 1706659200000, returnDate = None,
            status = Active, fineAmount = 0, createdAt_t = 1705449600000 \<rparr>] \<rparr>"
  by (simp add: reloaned_def returned_eval execs_def checkoutBook_def utcHost_def
      effectiveLoanDays_def defaultLoanDays_def setDate_getDate_plus_def LocalTime_def UTC_def
      TimeClip_def MakeDate_def Day_def TimeWithinDay_def msPerDay_def toString_def
      digits.simps digitChar_def Let_def)

lemma refunded_eval:
  "refunded =
     \<lparr> borrowers = [\<lparr> id_b = ''1704000000000'', name_b = ''Ada'', email_b = ''A@x.com'',
                      phone_b = [], address_b = [], createdAt_b = 1704000000000 \<rparr>],
       transactions =
         [\<lparr> id_t = ''1704067200000'', bookId = ''ITEM1'', borrowerId = ''1704000000000'',
            checkoutDate = 1704067200000, dueDate = 1705276800000,
            returnDate = Some 1705363200000,
            status = Returned, fineAmount = - 1, createdAt_t = 1704067200000 \<rparr>] \<rparr>"
  by (simp add: refunded_def loaned_eval execs_def returnBook_def utcHost_def markReturned_def
      Let_def)

lemma scenario_calls:
  "loaned = execs (emptyLedger [])
     [RegisterBorrower (utcHost 1704000000000) ada,
      CheckoutBook (utcHost 1704067200000) ''ITEM1'' ''1704000000000'' (Some 14)]"
  "returned = execs (emptyLedger [])
     [RegisterBorrower (utcHost 1704000000000) ada,
      CheckoutBook (utcHost 1704067200000) ''ITEM1'' ''1704000000000'' (Some 14),
      ReturnBook (utcHost 1705363200000) ''1704067200000'' (Some (1 / 2))]"
  "reloaned = execs (emptyLedger [])
     [RegisterBorrower (utcHost 1704000000000) ada,
      CheckoutBook (utcHost 1704067200000) ''ITEM1'' ''1704000000000'' (Some 14),
      ReturnBook (utcHost 1705363200000) ''1704067200000'' (Some (1 / 2)),
      CheckoutBook (utcHost 1705449600000) ''ITEM1'' ''1704000000000'' None]"
  "refunded = execs (emptyLedger [])
     [RegisterBorrower (utcHost 1704000000000) ada,
      CheckoutBook (utcHost 1704067200000) ''ITEM1'' ''1704000000000'' (Some 14),
      ReturnBook (utcHost 1705363200000) ''1704067200000'' (Some (- 1))]"
  by (simp_all add: reloaned_def refunded_def returned_def loaned_def registered_def execs_def)

section \<open>What a call does to the ledger\<close>

lemma markReturned_fields:
  "id_t (markReturned now fine t) = id_t t"
  "status (markReturned now fine t) = Returned"
  "fineAmount (markReturned now fine t) = fine"
  "bookId (markReturned now fine t) = bookId t"
  by (simp_all add: markReturned_def)

lemma registerBorrower_transactions:
  "transactions (snd (registerBorrower s h d)) = transactions s"
  by (simp add: registerBorrower_def Let_def)

lemma checkoutBook_effect:
  "snd (checkoutBook s h bid brid n) = s \<or>
   appended (transactions s) (transactions (snd (checkoutBook s h bid brid n)))"
proof (cases "\<exists>t. fst (checkoutBook s h bid brid n) = Success t")
  case False
  then show ?thesis
    by (auto simp: checkoutBook_def Let_def split: option.splits)
next
  case True
  then obtain t where t: "fst (checkoutBook s h bid brid n) = Success t" by blast
  then have none: "find (\<lambda>t. bookId t = bid \<and> status t = Active) (transactions s) = None"
    by (auto simp: checkoutBook_def Let_def split: option.splits)
  from t have props: "status t = Active" "fineAmount t = 0" "returnDate t = None" "bookId t = bid"
    by (auto simp: checkoutBook_def Let_def split: option.splits)
  from t have "transactions (snd (checkoutBook s h bid brid n)) = transactions s @ [t]"
    by (auto simp: checkoutBook_def Let_def split: option.splits)
  moreover from none have "\<forall>u\<in>set (transactions s). \<not> (bookId u = bookId t \<and> status u = Active)"
    using props(4) by (auto simp: find_None_iff)
  ultimately have "appended (transactions s) (transactions (snd (checkoutBook s h bid brid n)))"
    unfolding appended_def using props by blast
  then show ?thesis ..
qed

lemma returnBook_effect:
  "snd (returnBook s h tid fine) = s \<or>
   returned_one (case fine of None \<Rightarrow> True | Some v \<Rightarrow> 0 \<le> v) (transactions s)
     (transactions (snd (returnBook s h tid fine)))"
proof (cases "find (\<lambda>t. id_t t = tid) (transactions s)")
  case None
  then show ?thesis by (simp add: returnBook_def)
next
  case (Some t)
  then obtain k where k: "first_at (\<lambda>t. id_t t = tid) (transactions s) k"
    "transactions s ! k = t"
    using find_first_at by fastforce
  show ?thesis
  proof (cases "status t = Active")
    case False
    with Some show ?thesis by (simp add: returnBook_def)
  next
    case True
    let ?f = "case fine of None \<Rightarrow> 0 | Some v \<Rightarrow> v"
    have "transactions (snd (returnBook s h tid fine)) =
          (transactions s)[k := markReturned (clock h 0) ?f (transactions s ! k)]"
      using Some True update_first_at[OF k(1)] k(2)
      by (simp add: returnBook_def Let_def)
    moreover have "id_t (transactions s ! k) = tid"
      using k(1) by (simp add: first_at_def)
    then have "first_at (\<lambda>t. id_t t = id_t (transactions s ! k)) (transactions s) k"
      using k(1) by simp
    moreover have "(case fine of None \<Rightarrow> True | Some v \<Rightarrow> 0 \<le> v) \<longrightarrow> 0 \<le> ?f"
      by (cases fine) auto
    ultimately have "returned_one (case fine of None \<Rightarrow> True | Some v \<Rightarrow> 0 \<le> v) (transactions s)
        (transactions (snd (returnBook s h tid fine)))"
      unfolding returned_one_def using True k(2) by blast
    then show ?thesis ..
  qed
qed

lemma exec_effect:
  "transactions (exec s c) = transactions s \<or>
   appended (transactions s) (transactions (exec s c)) \<or>
   returned_one (nonneg_fine c) (transactions s) (transactions (exec s c))"
proof (cases c)
  case (RegisterBorrower h d)
  then show ?thesis by (simp add: registerBorrower_transactions)
next
  case (CheckoutBook h bid brid n)
  with checkoutBook_effect[of s h bid brid n] show ?thesis by auto
next
  case (ReturnBook h tid fine)
  have "(case fine of None \<Rightarrow> True | Some v \<Rightarrow> 0 \<le> v) = nonneg_fine c"
    using ReturnBook by (cases fine) auto
  with returnBook_effect[of s h tid fine] ReturnBook show ?thesis by auto
next
  case (CalculateFine h tid r)
  then show ?thesis by (simp add: calculateFine_def Let_def split: option.splits)
next
  case (GetOverdueBooks h)
  then show ?thesis by (simp add: getOverdueBooks_def Let_def)
next
  case (GetActiveTransactions bid)
  then show ?thesis by (simp add: getActiveTransactions_def)
qed

section \<open>Invariants of the ledger\<close>

lemma step_single_active:
  assumes inv: "\<And>bid. length (filter (\<lambda>t. bookId t = bid \<and> status t = Active) (transactions s)) \<le> 1"
  shows "length (filter (\<lambda>t. bookId t = bid \<and> status t = Active) (transactions (exec s c))) \<le> 1"
proof -
  let ?Q = "\<lambda>t. bookId t = bid \<and> status t = Active"
  from exec_effect[of s c] consider
      "transactions (exec s c) = transactions s"
    | "appended (transactions s) (transactions (exec s c))"
    | "returned_one (nonneg_fine c) (transactions s) (transactions (exec s c))"
    by blast
  then show ?thesis
  proof cases
    case 1
    with inv show ?thesis by simp
  next
    case 2
    then obtain t where t: "status t = Active"
      "\<forall>u\<in>set (transactions s). \<not> (bookId u = bookId t \<and> status u = Active)"
      "transactions (exec s c) = transactions s @ [t]"
      unfolding appended_def by blast
    show ?thesis
    proof (cases "bookId t = bid")
      case True
      with t(2) have "filter ?Q (transactions s) = []"
        by (auto simp: filter_empty_conv)
      with t(3) show ?thesis by simp
    next
      case False
      with t(3) inv[of bid] show ?thesis by simp
    qed
  next
    case 3
    then obtain i now fine where
      eq: "transactions (exec s c) = (transactions s)[i := markReturned now fine (transactions s ! i)]"
      unfolding returned_one_def by blast
    have nq: "\<not> ?Q (markReturned now fine (transactions s ! i))"
      by (simp add: markReturned_fields)
    have "length (filter ?Q (transactions (exec s c))) \<le>
        length (filter ?Q (transactions s))"
      using filter_update_le[of ?Q "markReturned now fine (transactions s ! i)" "transactions s" i] nq
      unfolding eq by blast
    with inv[of bid] show ?thesis by linarith
  qed
qed

lemma step_active_unfined:
  assumes inv: "\<forall>t\<in>set (transactions s). status t = Active \<longrightarrow> fineAmount t = 0"
  shows "\<forall>t\<in>set (transactions (exec s c)). status t = Active \<longrightarrow> fineAmount t = 0"
proof -
  from exec_effect[of s c] consider
      "transactions (exec s c) = transactions s"
    | "appended (transactions s) (transactions (exec s c))"
    | "returned_one (nonneg_fine c) (transactions s) (transactions (exec s c))"
    by blast
  then show ?thesis
  proof cases
    case 1
    with inv show ?thesis by simp
  next
    case 2
    with inv show ?thesis unfolding appended_def by auto
  next
    case 3
    then obtain i now fine where
      eq: "transactions (exec s c) = (transactions s)[i := markReturned now fine (transactions s ! i)]"
      unfolding returned_one_def by blast
    have "set (transactions (exec s c)) \<subseteq>
          insert (markReturned now fine (transactions s ! i)) (set (transactions s))"
      unfolding eq by (rule set_update_subset_insert)
    with inv show ?thesis by (auto simp: markReturned_fields)
  qed
qed

lemma step_nonneg:
  assumes inv: "\<forall>t\<in>set (transactions s). 0 \<le> fineAmount t" and c: "nonneg_fine c"
  shows "\<forall>t\<in>set (transactions (exec s c)). 0 \<le> fineAmount t"
proof -
  from exec_effect[of s c] consider
      "transactions (exec s c) = transactions s"
    | "appended (transactions s) (transactions (exec s c))"
    | "returned_one (nonneg_fine c) (transactions s) (transactions (exec s c))"
    by blast
  then show ?thesis
  proof cases
    case 1
    with inv show ?thesis by simp
  next
    case 2
    with inv show ?thesis unfolding appended_def by auto
  next
    case 3
    then obtain i now fine where
      eq: "transactions (exec s c) = (transactions s)[i := markReturned now fine (transactions s ! i)]"
      and fine: "0 \<le> fine"
      unfolding returned_one_def using c by blast
    have "set (transactions (exec s c)) \<subseteq>
          insert (markReturned now fine (transactions s ! i)) (set (transactions s))"
      unfolding eq by (rule set_update_subset_insert)
    with inv fine show ?thesis by (auto simp: markReturned_fields)
  qed
qed

lemma step_returned_first:
  assumes inv: "\<forall>i<length (transactions s). status (transactions s ! i) = Returned \<longrightarrow>
           first_at (\<lambda>t. id_t t = id_t (transactions s ! i)) (transactions s) i"
  shows "\<forall>i<length (transactions (exec s c)). status (transactions (exec s c) ! i) = Returned \<longrightarrow>
           first_at (\<lambda>t. id_t t = id_t (transactions (exec s c) ! i)) (transactions (exec s c)) i"
proof -
  from exec_effect[of s c] consider
      "transactions (exec s c) = transactions s"
    | "appended (transactions s) (transactions (exec s c))"
    | "returned_one (nonneg_fine c) (transactions s) (transactions (exec s c))"
    by blast
  then show ?thesis
  proof cases
    case 1
    with inv show ?thesis by simp
  next
    case 2
    then obtain t where t: "status t = Active" "transactions (exec s c) = transactions s @ [t]"
      unfolding appended_def by blast
    show ?thesis
    proof (intro allI impI)
      fix i
      assume i: "i < length (transactions (exec s c))"
        and r: "status (transactions (exec s c) ! i) = Returned"
      have "i < length (transactions s)"
      proof (rule ccontr)
        assume "\<not> i < length (transactions s)"
        with i t(2) have "i = length (transactions s)" by simp
        with t r show False by simp
      qed
      with inv r t(2) show "first_at (\<lambda>t. id_t t = id_t (transactions (exec s c) ! i))
          (transactions (exec s c)) i"
        by (simp add: nth_append first_at_append)
    qed
  next
    case 3
    then obtain k now fine where
      k: "first_at (\<lambda>t. id_t t = id_t (transactions s ! k)) (transactions s) k"
      and eq: "transactions (exec s c) = (transactions s)[k := markReturned now fine (transactions s ! k)]"
      unfolding returned_one_def by blast
    have klen: "k < length (transactions s)" using k by (simp add: first_at_def)
    have ids: "map id_t (transactions (exec s c)) = map id_t (transactions s)"
      unfolding eq by (simp add: map_update markReturned_fields map_update_same)
    show ?thesis
    proof (intro allI impI)
      fix i
      assume i: "i < length (transactions (exec s c))"
        and r: "status (transactions (exec s c) ! i) = Returned"
      have ilen: "i < length (transactions s)" using i eq by simp
      have idi: "id_t (transactions (exec s c) ! i) = id_t (transactions s ! i)"
        using ids ilen i by (metis nth_map)
      have "first_at (\<lambda>t. id_t t = id_t (transactions s ! i)) (transactions s) i"
      proof (cases "i = k")
        case True
        with k show ?thesis by simp
      next
        case False
        with r eq ilen have "status (transactions s ! i) = Returned" by simp
        with inv ilen show ?thesis by blast
      qed
      then show "first_at (\<lambda>t. id_t t = id_t (transactions (exec s c) ! i))
          (transactions (exec s c)) i"
        by (simp only: idi first_at_same_ids[OF ids])
    qed
  qed
qed

lemma step_returned_kept:
  assumes i: "i < length (transactions s)" and r: "status (transactions s ! i) = Returned"
  shows "i < length (transactions (exec s c)) \<and> transactions (exec s c) ! i = transactions s ! i"
proof -
  from exec_effect[of s c] consider
      "transactions (exec s c) = transactions s"
    | "appended (transactions s) (transactions (exec s c))"
    | "returned_one (nonneg_fine c) (transactions s) (transactions (exec s c))"
    by blast
  then show ?thesis
  proof cases
    case 1
    with i show ?thesis by simp
  next
    case 2
    with i show ?thesis unfolding appended_def by (auto simp: nth_append)
  next
    case 3
    then obtain k now fine where
      k: "status (transactions s ! k) = Active"
      and eq: "transactions (exec s c) = (transactions s)[k := markReturned now fine (transactions s ! k)]"
      unfolding returned_one_def by blast
    from k r have "k \<noteq> i" by auto
    with i eq show ?thesis by simp
  qed
qed

section \<open>Invariants along a sequence of calls\<close>

lemma execs_Nil: "execs s [] = s"
  by (simp add: execs_def)

lemma execs_Cons: "execs s (c # cs) = execs (exec s c) cs"
  by (simp add: execs_def)

lemma execs_single_active:
  "(\<And>bid. length (filter (\<lambda>t. bookId t = bid \<and> status t = Active) (transactions s)) \<le> 1) \<Longrightarrow>
   length (filter (\<lambda>t. bookId t = bid \<and> status t = Active) (transactions (execs s cs))) \<le> 1"
proof (induction cs arbitrary: s bid)
  case Nil
  then show ?case by (simp add: execs_Nil)
next
  case (Cons c cs)
  have "length (filter (\<lambda>t. bookId t = b \<and> status t = Active) (transactions (exec s c))) \<le> 1" for b
    using Cons.prems by (rule step_single_active)
  then show ?case unfolding execs_Cons by (rule Cons.IH)
qed

lemma execs_active_unfined:
  "\<forall>t\<in>set (transactions s). status t = Active \<longrightarrow> fineAmount t = 0 \<Longrightarrow>
   \<forall>t\<in>set (transactions (execs s cs)). status t = Active \<longrightarrow> fineAmount t = 0"
proof (induction cs arbitrary: s)
  case Nil
  then show ?case by (simp add: execs_Nil)
next
  case (Cons c cs)
  from Cons.prems have "\<forall>t\<in>set (transactions (exec s c)). status t = Active \<longrightarrow> fineAmount t = 0"
    by (rule step_active_unfined)
  then show ?case unfolding execs_Cons by (rule Cons.IH)
qed

lemma execs_nonneg:
  "\<forall>t\<in>set (transactions s). 0 \<le> fineAmount t \<Longrightarrow> \<forall>c\<in>set cs. nonneg_fine c \<Longrightarrow>
   \<forall>t\<in>set (transactions (execs s cs)). 0 \<le> fineAmount t"
proof (induction cs arbitrary: s)
  case Nil
  then show ?case by (simp add: execs_Nil)
next
  case (Cons c cs)
  from Cons.prems have "\<forall>t\<in>set (transactions (exec s c)). 0 \<le> fineAmount t"
    by (intro step_nonneg) simp_all
  moreover from Cons.prems(2) have "\<forall>c\<in>set cs. nonneg_fine c" by simp
  ultimately show ?case unfolding execs_Cons by (rule Cons.IH)
qed

lemma execs_returned_first:
  "\<forall>i<length (transactions s). status (transactions s ! i) = Returned \<longrightarrow>
      first_at (\<lambda>t. id_t t = id_t (transactions s ! i)) (transactions s) i \<Longrightarrow>
   \<forall>i<length (transactions (execs s cs)). status (transactions (execs s cs) ! i) = Returned \<longrightarrow>
      first_at (\<lambda>t. id_t t = id_t (transactions (execs s cs) ! i)) (transactions (execs s cs)) i"
proof (induction cs arbitrary: s)
  case Nil
  then show ?case by (simp add: execs_Nil)
next
  case (Cons c cs)
  from Cons.prems have
    "\<forall>i<length (transactions (exec s c)). status (transactions (exec s c) ! i) = Returned \<longrightarrow>
      first_at (\<lambda>t. id_t t = id_t (transactions (exec s c) ! i)) (transactions (exec s c)) i"
    by (rule step_returned_first)
  then show ?case unfolding execs_Cons by (rule Cons.IH)
qed

lemma execs_returned_kept:
  "i < length (transactions s) \<Longrightarrow> status (transactions s ! i) = Returned \<Longrightarrow>
   i < length (transactions (execs s cs)) \<and> transactions (execs s cs) ! i = transactions s ! i"
proof (induction cs arbitrary: s)
  case Nil
  then show ?case by (simp add: execs_Nil)
next
  case (Cons c cs)
  from step_returned_kept[OF Cons.prems, of c]
  have k: "i < length (transactions (exec s c))" "transactions (exec s c) ! i = transactions s ! i"
    by simp_all
  with Cons.prems(2) have "status (transactions (exec s c) ! i) = Returned" by simp
  from Cons.IH[OF k(1) this] k(2) show ?case unfolding execs_Cons by simp
qed

section \<open>Lemmas about single calls\<close>

lemma returnBook_not_active:
  assumes "first_at (\<lambda>t. id_t t = tid) (transactions s) i" "status (transactions s ! i) \<noteq> Active"
  shows "returnBook s h tid fine = (Failure TransactionNotActive, s)"
  using first_at_find[OF assms(1)] assms(2) by (simp add: returnBook_def Let_def)

lemma returnBook_statuses:
  "length (transactions (snd (returnBook s h tid fine))) = length (transactions s) \<and>
   (\<forall>i<length (transactions s).
      status (transactions (snd (returnBook s h tid fine)) ! i) = Active \<longrightarrow>
      status (transactions s ! i) = Active)"
proof -
  from returnBook_effect[of s h tid fine] consider
      "snd (returnBook s h tid fine) = s"
    | "returned_one (case fine of None \<Rightarrow> True | Some v \<Rightarrow> 0 \<le> v) (transactions s)
         (transactions (snd (returnBook s h tid fine)))"
    by blast
  then show ?thesis
  proof cases
    case 1
    then show ?thesis by simp
  next
    case 2
    then obtain k now f where
      eq: "transactions (snd (returnBook s h tid fine)) =
           (transactions s)[k := markReturned now f (transactions s ! k)]"
      unfolding returned_one_def by blast
    have "status (transactions s ! i) = Active"
      if "i < length (transactions s)"
        "status ((transactions s)[k := markReturned now f (transactions s ! k)] ! i) = Active" for i
    proof (cases "i = k")
      case True
      with that show ?thesis by (simp add: markReturned_fields)
    next
      case False
      with that show ?thesis by simp
    qed
    then show ?thesis unfolding eq by simp

  qed
qed

lemma checkoutBook_refuses:
  assumes "\<exists>t\<in>set (transactions s). bookId t = bid \<and> status t = Active"
  shows "\<exists>e. checkoutBook s h bid brid n = (Failure e, s)"
proof -
  from assms have "find (\<lambda>t. bookId t = bid \<and> status t = Active) (transactions s) \<noteq> None"
    by (auto simp: find_None_iff)
  then show ?thesis
    by (auto simp: checkoutBook_def split: option.splits)
qed

lemma ceiling_days:
  fixes n :: int
  shows "\<lceil>rat_of_int n / rat_of_int msPerDay\<rceil> = d \<longleftrightarrow> (d - 1) * msPerDay < n \<and> n \<le> d * msPerDay"
proof -
  have pos: "(0::rat) < rat_of_int msPerDay" by (simp add: msPerDay_def)
  have "\<lceil>rat_of_int n / rat_of_int msPerDay\<rceil> = d \<longleftrightarrow>
        rat_of_int d - 1 < rat_of_int n / rat_of_int msPerDay \<and>
        rat_of_int n / rat_of_int msPerDay \<le> rat_of_int d"
    by (rule ceiling_eq_iff)
  also have "\<dots> \<longleftrightarrow> (rat_of_int d - 1) * rat_of_int msPerDay < rat_of_int n \<and>
        rat_of_int n \<le> rat_of_int d * rat_of_int msPerDay"
    using pos by (simp only: pos_less_divide_eq pos_divide_le_eq)
  also have "\<dots> \<longleftrightarrow> rat_of_int ((d - 1) * msPerDay) < rat_of_int n \<and>
        rat_of_int n \<le> rat_of_int (d * msPerDay)"
    by (simp only: of_int_mult of_int_diff of_int_1)
  also have "\<dots> \<longleftrightarrow> (d - 1) * msPerDay < n \<and> n \<le> d * msPerDay"
    by (simp only: of_int_less_iff of_int_le_iff)
  finally show ?thesis .
qed

lemma calculateFine_snd: "snd (calculateFine s h tid r) = s"
  by (simp add: calculateFine_def Let_def split: option.splits)

lemma calculateFine_missing:
  "find (\<lambda>t. id_t t = tid) (transactions s) = None \<Longrightarrow> fst (calculateFine s h tid r) = 0"
  by (simp add: calculateFine_def)

lemma calculateFine_zero:
  "find (\<lambda>t. id_t t = tid) (transactions s) = Some t \<Longrightarrow>
   status t \<noteq> Active \<or> clock h 0 \<le> dueDate t \<Longrightarrow> fst (calculateFine s h tid r) = 0"
  by (auto simp: calculateFine_def Let_def)

lemma calculateFine_overdue:
  "find (\<lambda>t. id_t t = tid) (transactions s) = Some t \<Longrightarrow>
   status t = Active \<Longrightarrow> dueDate t < clock h 0 \<Longrightarrow>
   fst (calculateFine s h tid r) =
     times64 \<lceil>rat_of_int (clock h 0 - dueDate t) / rat_of_int msPerDay\<rceil>
       (case r of None \<Rightarrow> 1 / 2 | Some x \<Rightarrow> x)"
  by (simp add: calculateFine_def Let_def del: of_int_diff)

lemma calculateFine_days:
  assumes "find (\<lambda>t. id_t t = tid) (transactions s) = Some t" "status t = Active"
    and "(d - 1) * msPerDay < clock h 0 - dueDate t" "clock h 0 - dueDate t \<le> d * msPerDay"
    and "dueDate t < clock h 0"
  shows "fst (calculateFine s h tid r) = times64 d (case r of None \<Rightarrow> 1 / 2 | Some x \<Rightarrow> x)"
proof -
  have "\<lceil>rat_of_int (clock h 0 - dueDate t) / rat_of_int msPerDay\<rceil> = d"
    using assms(3,4) by (simp only: ceiling_days)
  with calculateFine_overdue[OF assms(1,2,5)] show ?thesis by simp
qed

lemma returnBook_success:
  assumes "returnBook s h tid fine = (Success t, s')"
  shows "status t = Returned \<and> fineAmount t = (case fine of None \<Rightarrow> 0 | Some v \<Rightarrow> v) \<and>
         returnDate t = Some (clock h 0) \<and> t \<in> set (transactions s')"
proof (cases "find (\<lambda>t. id_t t = tid) (transactions s)")
  case None
  with assms show ?thesis by (simp add: returnBook_def)
next
  case (Some u)
  then obtain k where k: "first_at (\<lambda>t. id_t t = tid) (transactions s) k"
    "transactions s ! k = u"
    using find_first_at by fastforce
  have klen: "k < length (transactions s)" using k(1) by (simp add: first_at_def)
  show ?thesis
  proof (cases "status u = Active")
    case False
    with Some assms show ?thesis by (simp add: returnBook_def)
  next
    case True
    let ?f = "case fine of None \<Rightarrow> 0 | Some v \<Rightarrow> v"
    from Some True assms update_first_at[OF k(1)] k(2)
    have t: "t = markReturned (clock h 0) ?f u"
      and s': "transactions s' = (transactions s)[k := markReturned (clock h 0) ?f u]"
      by (auto simp: returnBook_def Let_def)
    have "t \<in> set (transactions s')"
      unfolding s' t using klen by (rule set_update_memI)
    with t show ?thesis by (simp add: markReturned_def)
  qed
qed

text \<open>
  A due date outside the range of valid dates makes \<open>toISOString\<close> throw while the
  transaction is built, before it is pushed: the state is as it was.
\<close>

lemma checkoutBook_RangeError:
  "fst (checkoutBook s h bid brid loanDays) = RangeError \<Longrightarrow>
   snd (checkoutBook s h bid brid loanDays) = s"
  by (auto simp: checkoutBook_def Let_def split: option.splits)

lemma checkoutBook_RangeError_example:
  "checkoutBook registered (utcHost 1704067200000) ''ITEM1'' ''1704000000000''
     (Some 100000000000) = (RangeError, registered)"
  by (simp add: registered_eval checkoutBook_def utcHost_def effectiveLoanDays_def
      setDate_getDate_plus_def LocalTime_def UTC_def TimeClip_def MakeDate_def Day_def
      TimeWithinDay_def msPerDay_def Let_def)

lemma MakeDate_shift: "MakeDate (Day lt + n) (TimeWithinDay lt) = lt + n * msPerDay"
proof -
  have "lt div msPerDay * msPerDay + lt mod msPerDay = lt" by simp
  then show ?thesis
    by (simp add: MakeDate_def Day_def TimeWithinDay_def algebra_simps)
qed

lemma setDate_getDate_plus_Some:
  assumes "setDate_getDate_plus h t n = Some u"
  shows "u = LocalTime h t + n * msPerDay - localTZA h (LocalTime h t + n * msPerDay) False"
  using assms
  by (simp add: setDate_getDate_plus_def Let_def MakeDate_shift UTC_def TimeClip_def
      split: if_splits)

lemma checkoutBook_success:
  assumes "checkoutBook s h bid brid loanDays = (Success t, s')"
  shows "checkoutDate t = clock h 0 \<and>
         setDate_getDate_plus h (clock h 0) (effectiveLoanDays loanDays) = Some (dueDate t)"
  using assms by (auto simp: checkoutBook_def Let_def split: option.splits)

lemma checkoutBook_days:
  "effectiveLoanDays a = effectiveLoanDays b \<Longrightarrow>
   checkoutBook s h bid brid a = checkoutBook s h bid brid b"
  unfolding checkoutBook_def by (simp cong: option.case_cong)

lemma toLowerCase_examples:
  "toLowerCase ''A@x.com'' = ''a@x.com''"
  "toLowerCase ''a@X.COM'' = ''a@x.com''"
  by code_simp+

lemma trim_Nil: "trim [] = []"
  by (simp add: trim_def)

lemma blank_name_iff: "(n = [] \<or> length (trim n) = 0) \<longleftrightarrow> trim n = []"
  by (auto simp: trim_Nil)

lemma toLowerCase_nonempty: "toLowerCase x = toLowerCase y \<Longrightarrow> y \<noteq> [] \<Longrightarrow> x \<noteq> []"
  by (auto simp: toLowerCase_def)

lemma duplicate_iff:
  "(truthy e \<and> find (\<lambda>b. email_b b \<noteq> [] \<and> toLowerCase (email_b b) = toLowerCase (the e)) bs \<noteq> None)
   \<longleftrightarrow> (\<exists>x. e = Some x \<and> x \<noteq> [] \<and> (\<exists>b\<in>set bs. toLowerCase (email_b b) = toLowerCase x))"
proof (cases e)
  case None
  then show ?thesis by (simp add: truthy_def)
next
  case (Some x)
  have "(\<exists>b\<in>set bs. email_b b \<noteq> [] \<and> toLowerCase (email_b b) = toLowerCase x) \<longleftrightarrow>
        (\<exists>b\<in>set bs. toLowerCase (email_b b) = toLowerCase x)" if "x \<noteq> []"
    using that toLowerCase_nonempty[of _ x] by blast
  with Some show ?thesis
    by (auto simp: truthy_def find_None_iff)
qed

lemma times64_small:
  "\<bar>d\<bar> \<le> 2 ^ 53 \<Longrightarrow> times64 d r = round64 (rat_of_int d * r)"
  by (simp add: times64_def)

lemma days_positive:
  assumes "dueDate t < clock h 0" "clock h 0 - dueDate t \<le> d * msPerDay"
  shows "1 \<le> d"
proof (rule ccontr)
  assume "\<not> 1 \<le> d"
  then have "d \<le> 0" by simp
  then have "d * msPerDay \<le> 0" by (simp add: msPerDay_def mult_le_0_iff)
  with assms show False by linarith
qed

lemma double_examples:
  "isDouble 1"
  "isDouble (1 / 2)"
  "isDouble (3 / 4)"
  "isDouble (3602879701896397 / 36028797018963968)"
  "round64 (1 / 10) = 3602879701896397 / 36028797018963968"
  "round64 (rat_of_int 2 * (1 / 2)) = 1"
  "times64 3 (3602879701896397 / 36028797018963968) = 10808639105689192 / 36028797018963968"
  by code_simp+

text \<open>
  What \<open>registerBorrower\<close> does, by the stored emails of the directory: the email passed
  is compared as it is with the emails as they were stored, sanitized.
\<close>

lemma registerBorrower_stored:
  "(fst (registerBorrower s h d) = Failure MissingName \<longleftrightarrow> trim (name d) = []) \<and>
   (fst (registerBorrower s h d) = Failure DuplicateEmail \<longleftrightarrow>
      trim (name d) \<noteq> [] \<and>
      (\<exists>x. email d = Some x \<and> x \<noteq> [] \<and>
           (\<exists>b\<in>set (borrowers s). toLowerCase (email_b b) = toLowerCase x))) \<and>
   ((\<exists>e. fst (registerBorrower s h d) = Failure e) \<longrightarrow> snd (registerBorrower s h d) = s) \<and>
   (trim (name d) \<noteq> [] \<and>
    \<not> (\<exists>x. email d = Some x \<and> x \<noteq> [] \<and>
           (\<exists>b\<in>set (borrowers s). toLowerCase (email_b b) = toLowerCase x)) \<longrightarrow>
      (\<exists>b. registerBorrower s h d = (Success b, s\<lparr>borrowers := borrowers s @ [b]\<rparr>) \<and>
           id_b b = toString (clock h 0) \<and>
           name_b b = sanitize (name d) \<and>
           email_b b = sanitizeOpt (email d) \<and>
           phone_b b = sanitizeOpt (phone d) \<and>
           address_b b = sanitizeOpt (address d)))"
proof -
  let ?dup = "\<exists>x. email d = Some x \<and> x \<noteq> [] \<and>
           (\<exists>b\<in>set (borrowers s). toLowerCase (email_b b) = toLowerCase x)"
  note dup = duplicate_iff[of "email d" "borrowers s"]
  consider (blank) "trim (name d) = []"
    | (dup) "trim (name d) \<noteq> []" ?dup
    | (ok) "trim (name d) \<noteq> []" "\<not> ?dup"
    by blast
  then show ?thesis
  proof cases
    case blank
    then have "registerBorrower s h d = (Failure MissingName, s)"
      using blank_name_iff[of "name d"] by (simp add: registerBorrower_def)
    with blank show ?thesis by simp
  next
    case dup
    then have "registerBorrower s h d = (Failure DuplicateEmail, s)"
      using blank_name_iff[of "name d"] duplicate_iff[of "email d" "borrowers s"]
      by (simp add: registerBorrower_def)
    with dup show ?thesis by simp
  next
    case ok
    let ?b = "\<lparr> id_b = toString (clock h 0), name_b = sanitize (name d),
                email_b = sanitizeOpt (email d), phone_b = sanitizeOpt (phone d),
                address_b = sanitizeOpt (address d), createdAt_b = clock h 1 \<rparr>"
    from ok have "registerBorrower s h d = (Success ?b, s\<lparr>borrowers := borrowers s @ [?b]\<rparr>)"
      using blank_name_iff[of "name d"] duplicate_iff[of "email d" "borrowers s"]
      by (simp add: registerBorrower_def Let_def)
    moreover from this have "\<exists>b. registerBorrower s h d = (Success b, s\<lparr>borrowers := borrowers s @ [b]\<rparr>) \<and>
           id_b b = toString (clock h 0) \<and>
           name_b b = sanitize (name d) \<and>
           email_b b = sanitizeOpt (email d) \<and>
           phone_b b = sanitizeOpt (phone d) \<and>
           address_b b = sanitizeOpt (address d)"
      by (intro exI[of _ ?b]) simp
    ultimately show ?thesis using ok by simp
  qed
qed

lemma exec_borrowers:
  "borrowers (exec s c) =
     (case c of
        RegisterBorrower h d \<Rightarrow>
          (case fst (registerBorrower s h d) of
             Success b \<Rightarrow> borrowers s @ [b]
           | _ \<Rightarrow> borrowers s)
      | _ \<Rightarrow> borrowers s)"
proof (cases c)
  case (RegisterBorrower h d)
  then show ?thesis
    by (simp add: registerBorrower_def Let_def)
next
  case (CheckoutBook h bid brid n)
  then show ?thesis
    by (simp add: checkoutBook_def Let_def split: option.splits)
next
  case (ReturnBook h tid fine)
  then show ?thesis
    by (simp add: returnBook_def Let_def split: option.splits)
next
  case (CalculateFine h tid r)
  then show ?thesis by (simp add: calculateFine_snd)
next
  case (GetOverdueBooks h)
  then show ?thesis by (simp add: getOverdueBooks_def Let_def)
next
  case (GetActiveTransactions bid)
  then show ?thesis by (simp add: getActiveTransactions_def)
qed

lemma registerBorrower_email:
  "fst (registerBorrower s h d) = Success b \<Longrightarrow> email_b b = sanitizeOpt (email d)"
  by (auto simp: registerBorrower_def Let_def split: if_splits)

lemma stored_emails:
  "map email_b (borrowers (execs s cs)) =
   map email_b (borrowers s) @ map (\<lambda>d. sanitizeOpt (email d)) (accepted s cs)"
proof (induction cs arbitrary: s)
  case Nil
  then show ?case by (simp add: execs_Nil)
next
  case (Cons c cs)
  have step: "map email_b (borrowers (exec s c)) =
      map email_b (borrowers s) @
      map (\<lambda>d. sanitizeOpt (email d))
        (case c of
           RegisterBorrower h d \<Rightarrow>
             (case fst (registerBorrower s h d) of Success b \<Rightarrow> [d] | _ \<Rightarrow> [])
         | _ \<Rightarrow> [])"
  proof (cases c)
    case (RegisterBorrower h d)
    show ?thesis
    proof (cases "fst (registerBorrower s h d)")
      case (Success b)
      with RegisterBorrower registerBorrower_email[OF Success] exec_borrowers[of s c]
      show ?thesis by simp
    next
      case (Failure e)
      with RegisterBorrower exec_borrowers[of s c] show ?thesis by simp
    next
      case RangeError
      with RegisterBorrower exec_borrowers[of s c] show ?thesis by simp
    qed
  next
    case (CheckoutBook h bid brid n)
    with exec_borrowers[of s c] show ?thesis by simp
  next
    case (ReturnBook h tid fine)
    with exec_borrowers[of s c] show ?thesis by simp
  next
    case (CalculateFine h tid r)
    with exec_borrowers[of s c] show ?thesis by simp
  next
    case (GetOverdueBooks h)
    with exec_borrowers[of s c] show ?thesis by simp
  next
    case (GetActiveTransactions bid)
    with exec_borrowers[of s c] show ?thesis by simp
  qed
  show ?case
    unfolding execs_Cons Cons.IH step by simp
qed

lemma sanitizeOpt_supplied:
  "sanitize (suppliedEmail d) = suppliedEmail d \<Longrightarrow> sanitizeOpt (email d) = suppliedEmail d"
  by (cases "email d") (auto simp: sanitizeOpt_def suppliedEmail_def truthy_def)

lemma stored_as_supplied:
  assumes "\<forall>d'\<in>set (accepted (emptyLedger []) cs). sanitize (suppliedEmail d') = suppliedEmail d'"
  shows "map email_b (borrowers (execs (emptyLedger []) cs)) =
         map suppliedEmail (accepted (emptyLedger []) cs)"
proof -
  have "map (\<lambda>d. sanitizeOpt (email d)) (accepted (emptyLedger []) cs) =
        map suppliedEmail (accepted (emptyLedger []) cs)"
    using assms by (intro map_cong) (simp_all add: sanitizeOpt_supplied)
  then show ?thesis
    by (simp add: stored_emails emptyLedger_def)
qed

lemma supplied_iff:
  "(\<exists>x. email d = Some x \<and> x \<noteq> [] \<and> P x) \<longleftrightarrow> suppliedEmail d \<noteq> [] \<and> P (suppliedEmail d)"
  by (cases "email d") (auto simp: suppliedEmail_def)

text \<open>
  An email that sanitization changes is stored changed and compared unchanged: the
  registration with the email a&b@x.com succeeds twice, and the directory then holds
  the same stored email twice.
\<close>

lemma sanitized_email_registers_twice:
  "sanitize ''a&b@x.com'' = ''a&amp;b@x.com'' \<and>
   fst (registerBorrower (emptyLedger []) (utcHost 1) amp) =
     Success \<lparr> id_b = ''1'', name_b = ''Amp'', email_b = ''a&amp;b@x.com'', phone_b = [],
               address_b = [], createdAt_b = 1 \<rparr> \<and>
   fst (registerBorrower (execs (emptyLedger []) [RegisterBorrower (utcHost 1) amp])
          (utcHost 2) amp) =
     Success \<lparr> id_b = ''2'', name_b = ''Amp'', email_b = ''a&amp;b@x.com'', phone_b = [],
               address_b = [], createdAt_b = 2 \<rparr>"
  by (simp add: execs_def emptyLedger_def registerBorrower_def amp_def trim_def isWhiteSpace_def
      truthy_def utcHost_def toLowerCase_def sanitizeOpt_def sanitize_def innerHTML_def
      escapeChar_def toString_def digits.simps digitChar_def Let_def)

section \<open>The claims\<close>

text \<open>
  C1. In every state reached from the empty ledger by a sequence of calls, at most one
  transaction of an item is active: \<open>getActiveTransactions\<close> returns at most one
  element. In any state, \<open>checkoutBook\<close> fails and leaves the state as it is when an
  active transaction of the item exists, and a transaction that is active after
  \<open>returnBook\<close> was active before it.
\<close>

theorem single_active_loan:
  "length (fst (getActiveTransactions (execs (emptyLedger bs) cs) bid)) \<le> 1 \<and>
   ((\<exists>t\<in>set (transactions s). bookId t = bid \<and> status t = Active) \<longrightarrow>
      (\<exists>e. checkoutBook s h bid brid n = (Failure e, s))) \<and>
   length (transactions (snd (returnBook s h tid fine))) = length (transactions s) \<and>
   (\<forall>i<length (transactions s).
      status (transactions (snd (returnBook s h tid fine)) ! i) = Active \<longrightarrow>
      status (transactions s ! i) = Active)"
proof -
  have "length (filter (\<lambda>t. bookId t = bid \<and> status t = Active)
          (transactions (execs (emptyLedger bs) cs))) \<le> 1"
    by (rule execs_single_active) (simp add: emptyLedger_def)
  then have "length (fst (getActiveTransactions (execs (emptyLedger bs) cs) bid)) \<le> 1"
    by (simp add: getActiveTransactions_def)
  with checkoutBook_refuses[of s bid h brid n] returnBook_statuses[of s h tid fine]
  show ?thesis by blast
qed

theorem single_active_loan_witness:
  "length (fst (getActiveTransactions loaned ''ITEM1'')) = 1 \<and>
   bookId (transactions loaned ! 0) = ''ITEM1'' \<and>
   status (transactions loaned ! 0) = Active \<and>
   checkoutBook loaned (utcHost 1704153600000) ''ITEM1'' ''1704000000000'' None =
     (Failure ItemAlreadyCheckedOut, loaned) \<and>
   status (transactions (snd (returnBook loaned (utcHost 1704153600000) ''0'' None)) ! 0) =
     Active"
  using single_active_loan[of "[]"
      "[RegisterBorrower (utcHost 1704000000000) ada,
        CheckoutBook (utcHost 1704067200000) ''ITEM1'' ''1704000000000'' (Some 14)]"
      "''ITEM1''" loaned "utcHost 1704153600000" "''1704000000000''" None "''0''" None]
  unfolding scenario_calls(1)[symmetric]
  by (simp add: loaned_eval getActiveTransactions_def checkoutBook_def returnBook_def)

text \<open>
  C2, as amended. A successful checkout with a loan period \<open>n \<noteq> 0\<close> records the first
  clock reading \<open>T\<close> of the call as checkout date. Its due date is \<open>n\<close> calendar days
  later on the local wall clock: the due date's local time, at the offset in force
  there, is the local time of \<open>T\<close> plus \<open>n\<close> days of 86400000 ms. When that offset is
  the offset in force at \<open>T\<close>, the due date is exactly \<open>T + n * 86400000\<close>. A checkout
  without a loan period, and one with the period 0, do what a checkout with the
  period 14 does.
\<close>

theorem checkout_due_date:
  "(\<forall>n t s'. n \<noteq> 0 \<and> checkoutBook s h bid brid (Some n) = (Success t, s') \<longrightarrow>
      checkoutDate t = clock h 0 \<and>
      dueDate t + localTZA h (LocalTime h (clock h 0) + n * msPerDay) False =
        LocalTime h (clock h 0) + n * msPerDay \<and>
      (localTZA h (LocalTime h (clock h 0) + n * msPerDay) False = localTZA h (clock h 0) True \<longrightarrow>
         dueDate t = clock h 0 + n * msPerDay)) \<and>
   checkoutBook s h bid brid None = checkoutBook s h bid brid (Some 14) \<and>
   checkoutBook s h bid brid (Some 0) = checkoutBook s h bid brid (Some 14)"
proof (intro conjI allI impI)
  fix n t s'
  assume a: "n \<noteq> 0 \<and> checkoutBook s h bid brid (Some n) = (Success t, s')"
  then have eff: "effectiveLoanDays (Some n) = n" by (simp add: effectiveLoanDays_def)
  from a checkoutBook_success[of s h bid brid "Some n" t s']
  have c: "checkoutDate t = clock h 0"
    and d: "setDate_getDate_plus h (clock h 0) n = Some (dueDate t)"
    by (simp_all add: eff)
  from setDate_getDate_plus_Some[OF d]
  have due: "dueDate t = LocalTime h (clock h 0) + n * msPerDay -
      localTZA h (LocalTime h (clock h 0) + n * msPerDay) False" .
  show "checkoutDate t = clock h 0" by (rule c)
  show "dueDate t + localTZA h (LocalTime h (clock h 0) + n * msPerDay) False =
        LocalTime h (clock h 0) + n * msPerDay"
    using due by simp
  assume "localTZA h (LocalTime h (clock h 0) + n * msPerDay) False = localTZA h (clock h 0) True"
  with due show "dueDate t = clock h 0 + n * msPerDay"
    by (simp add: LocalTime_def)
next
  show "checkoutBook s h bid brid None = checkoutBook s h bid brid (Some 14)"
    by (rule checkoutBook_days) (simp add: effectiveLoanDays_def defaultLoanDays_def)
next
  show "checkoutBook s h bid brid (Some 0) = checkoutBook s h bid brid (Some 14)"
    by (rule checkoutBook_days) (simp add: effectiveLoanDays_def defaultLoanDays_def)
qed

text \<open>
  The scenario's checkout: 14 days from 2024-01-01T00:00:00Z in the UTC zone are due at
  2024-01-15T00:00:00Z, and the second checkout, with no period, is the checkout with 14.
\<close>

theorem checkout_due_date_witness:
  "checkoutBook registered (utcHost 1704067200000) ''ITEM1'' ''1704000000000'' (Some 14) =
     (Success (transactions loaned ! 0), loaned) \<and>
   localTZA (utcHost 1704067200000)
      (LocalTime (utcHost 1704067200000) (clock (utcHost 1704067200000) 0) + 14 * msPerDay)
      False = localTZA (utcHost 1704067200000) (clock (utcHost 1704067200000) 0) True \<and>
   checkoutDate (transactions loaned ! 0) = 1704067200000 \<and>
   dueDate (transactions loaned ! 0) = 1704067200000 + 14 * msPerDay \<and>
   checkoutBook returned (utcHost 1705449600000) ''ITEM1'' ''1704000000000'' None =
     checkoutBook returned (utcHost 1705449600000) ''ITEM1'' ''1704000000000'' (Some 14)"
proof -
  let ?h = "utcHost 1704067200000"
  have co: "checkoutBook registered ?h ''ITEM1'' ''1704000000000'' (Some 14) =
     (Success (transactions loaned ! 0), loaned)"
    using loaned_eval
    by (simp add: loaned_def execs_def prod_eq_iff checkoutBook_def registered_eval Let_def
        split: option.splits)
  have tz: "localTZA ?h (LocalTime ?h (clock ?h 0) + 14 * msPerDay) False =
      localTZA ?h (clock ?h 0) True"
    by (simp add: utcHost_def)
  have n: "(14::int) \<noteq> 0" by simp
  note inst = checkout_due_date[of registered ?h "''ITEM1''" "''1704000000000''"]
  from inst n co tz have "checkoutDate (transactions loaned ! 0) = clock ?h 0 \<and>
      dueDate (transactions loaned ! 0) = clock ?h 0 + 14 * msPerDay"
    by blast
  then have "checkoutDate (transactions loaned ! 0) = 1704067200000 \<and>
      dueDate (transactions loaned ! 0) = 1704067200000 + 14 * msPerDay"
    by (simp add: utcHost_def)
  moreover have "checkoutBook returned (utcHost 1705449600000) ''ITEM1'' ''1704000000000'' None =
     checkoutBook returned (utcHost 1705449600000) ''ITEM1'' ''1704000000000'' (Some 14)"
    using checkout_due_date[of returned "utcHost 1705449600000" "''ITEM1''" "''1704000000000''"]
    by blast
  ultimately show ?thesis using co tz by blast
qed

text \<open>
  C2 as stated fails twice. A checkout with the explicit period 0 at 2024-01-01T00:00:00Z
  is due 14 days later, not 0 days later. A checkout for 14 days at 2024-03-01T15:00:00Z
  in a zone that moves its clocks forward on 2024-03-10 is due at 2024-03-15T14:00:00Z,
  one hour less than 14 times 24 hours later.
\<close>

theorem checkout_due_date_counterexample:
  "fst (checkoutBook registered (utcHost 1704067200000) ''ITEM1'' ''1704000000000'' (Some 0)) =
     Success \<lparr> id_t = ''1704067200000'', bookId = ''ITEM1'', borrowerId = ''1704000000000'',
       checkoutDate = 1704067200000, dueDate = 1705276800000, returnDate = None,
       status = Active, fineAmount = 0, createdAt_t = 1704067200000 \<rparr> \<and>
   (1705276800000::int) = 1704067200000 + 14 * msPerDay \<and>
   (1705276800000::int) \<noteq> 1704067200000 + 0 * msPerDay \<and>
   fst (checkoutBook registered (easternHost 1709305200000) ''ITEM1'' ''1704000000000'' (Some 14)) =
     Success \<lparr> id_t = ''1709305200000'', bookId = ''ITEM1'', borrowerId = ''1704000000000'',
       checkoutDate = 1709305200000, dueDate = 1710511200000, returnDate = None,
       status = Active, fineAmount = 0, createdAt_t = 1709305200000 \<rparr> \<and>
   (1710511200000::int) = 1709305200000 + 14 * msPerDay - 3600000 \<and>
   (1710511200000::int) \<noteq> 1709305200000 + 14 * msPerDay"
  by (simp add: registered_eval checkoutBook_def utcHost_def easternHost_def
      effectiveLoanDays_def defaultLoanDays_def setDate_getDate_plus_def LocalTime_def UTC_def
      TimeClip_def MakeDate_def Day_def TimeWithinDay_def msPerDay_def toString_def
      digits.simps digitChar_def Let_def)

text \<open>
  C3. When \<open>checkoutBook\<close> or \<open>returnBook\<close> returns a failure, the state after the call
  is the state before it: the ledger and the directory are unchanged.
\<close>

theorem failed_call_leaves_ledger:
  "(fst (checkoutBook s h bid brid loanDays) = Failure e \<longrightarrow>
      snd (checkoutBook s h bid brid loanDays) = s \<and>
      transactions (snd (checkoutBook s h bid brid loanDays)) = transactions s) \<and>
   (fst (returnBook s h tid fine) = Failure e' \<longrightarrow>
      snd (returnBook s h tid fine) = s \<and>
      transactions (snd (returnBook s h tid fine)) = transactions s)"
  by (auto simp: checkoutBook_def returnBook_def Let_def split: option.splits)

theorem failed_call_leaves_ledger_witness:
  "fst (checkoutBook loaned (utcHost 1704153600000) ''ITEM1'' ''1704000000000'' (Some 7)) =
     Failure ItemAlreadyCheckedOut \<and>
   snd (checkoutBook loaned (utcHost 1704153600000) ''ITEM1'' ''1704000000000'' (Some 7)) =
     loaned \<and>
   fst (returnBook returned (utcHost 1705449600000) ''1704067200000'' (Some 2)) =
     Failure TransactionNotActive \<and>
   snd (returnBook returned (utcHost 1705449600000) ''1704067200000'' (Some 2)) = returned"
  using failed_call_leaves_ledger[of loaned "utcHost 1704153600000" "''ITEM1''"
      "''1704000000000''" "Some 7" ItemAlreadyCheckedOut "''0''" None TransactionNotFound]
    failed_call_leaves_ledger[of returned "utcHost 1705449600000" "''ITEM1''"
      "''0''" None BorrowerNotFound "''1704067200000''" "Some 2" TransactionNotActive]
  by (simp add: loaned_eval returned_eval checkoutBook_def returnBook_def)

text \<open>
  C4. \<open>returnBook\<close> fails with "Transaction not found" exactly when no transaction of
  the ledger has the identifier; it fails with "This book is not currently checked out"
  exactly when the first transaction with the identifier, the one \<open>find\<close> returns, is
  not active; otherwise that transaction is active and the call succeeds: it sets the
  return date to the clock reading, the status to \<open>Returned\<close> and the fine to the
  amount passed, or to 0 when none is passed, and changes nothing else.
\<close>

theorem returnBook_cases:
  "(fst (returnBook s h tid fine) = Failure TransactionNotFound \<longleftrightarrow>
      (\<forall>t\<in>set (transactions s). id_t t \<noteq> tid)) \<and>
   (fst (returnBook s h tid fine) = Failure TransactionNotActive \<longleftrightarrow>
      (\<exists>i. first_at (\<lambda>t. id_t t = tid) (transactions s) i \<and>
           status (transactions s ! i) \<noteq> Active)) \<and>
   (\<forall>i. first_at (\<lambda>t. id_t t = tid) (transactions s) i \<and>
        status (transactions s ! i) = Active \<longrightarrow>
      returnBook s h tid fine =
        (Success ((transactions s ! i)
                    \<lparr> returnDate := Some (clock h 0), status := Returned,
                      fineAmount := (case fine of None \<Rightarrow> 0 | Some v \<Rightarrow> v) \<rparr>),
         s\<lparr>transactions := (transactions s)
              [i := (transactions s ! i)
                    \<lparr> returnDate := Some (clock h 0), status := Returned,
                      fineAmount := (case fine of None \<Rightarrow> 0 | Some v \<Rightarrow> v) \<rparr>]\<rparr>))"
proof (cases "find (\<lambda>t. id_t t = tid) (transactions s)")
  case None
  then have none: "\<forall>t\<in>set (transactions s). id_t t \<noteq> tid"
    by (auto simp: find_None_iff)
  then have "\<not> first_at (\<lambda>t. id_t t = tid) (transactions s) i" for i
    by (auto simp: first_at_def)
  with None none show ?thesis
    by (simp add: returnBook_def)
next
  case (Some t)
  then obtain k where k: "first_at (\<lambda>t. id_t t = tid) (transactions s) k"
    "transactions s ! k = t"
    using find_first_at by fastforce
  have only: "i = k" if "first_at (\<lambda>t. id_t t = tid) (transactions s) i" for i
    using that k(1) by (rule first_at_unique)
  have ex: "\<not> (\<forall>t\<in>set (transactions s). id_t t \<noteq> tid)"
    using k(1) unfolding first_at_def by (metis nth_mem)
  have nf: "fst (returnBook s h tid fine) \<noteq> Failure TransactionNotFound"
    using Some by (simp add: returnBook_def Let_def)
  show ?thesis
  proof (cases "status t = Active")
    case True
    have rb: "returnBook s h tid fine =
        (Success (markReturned (clock h 0) (case fine of None \<Rightarrow> 0 | Some v \<Rightarrow> v) t),
         s\<lparr>transactions := (transactions s)
              [k := markReturned (clock h 0) (case fine of None \<Rightarrow> 0 | Some v \<Rightarrow> v) t]\<rparr>)"
      using Some True update_first_at[OF k(1)] k(2)
      by (simp add: returnBook_def Let_def)
    have na: "\<not> (\<exists>i. first_at (\<lambda>t. id_t t = tid) (transactions s) i \<and>
           status (transactions s ! i) \<noteq> Active)"
      using only k(2) True by blast
    have "fst (returnBook s h tid fine) \<noteq> Failure TransactionNotActive"
      using rb by simp
    moreover have "returnBook s h tid fine =
        (Success ((transactions s ! i)
                    \<lparr> returnDate := Some (clock h 0), status := Returned,
                      fineAmount := (case fine of None \<Rightarrow> 0 | Some v \<Rightarrow> v) \<rparr>),
         s\<lparr>transactions := (transactions s)
              [i := (transactions s ! i)
                    \<lparr> returnDate := Some (clock h 0), status := Returned,
                      fineAmount := (case fine of None \<Rightarrow> 0 | Some v \<Rightarrow> v) \<rparr>]\<rparr>)"
      if "first_at (\<lambda>t. id_t t = tid) (transactions s) i" for i
    proof -
      have "i = k" using that by (rule only)
      then show ?thesis using rb k(2) by (simp add: markReturned_def)
    qed
    ultimately show ?thesis using nf ex na by blast
  next
    case False
    with Some have "fst (returnBook s h tid fine) = Failure TransactionNotActive"
      by (simp add: returnBook_def)
    moreover have "\<exists>i. first_at (\<lambda>t. id_t t = tid) (transactions s) i \<and>
           status (transactions s ! i) \<noteq> Active"
      using k False by blast
    moreover have "\<not> (first_at (\<lambda>t. id_t t = tid) (transactions s) i \<and>
        status (transactions s ! i) = Active)" for i
      using only[of i] k(2) False by blast
    ultimately show ?thesis using nf ex by blast
  qed
qed

theorem returnBook_cases_witness:
  "fst (returnBook loaned (utcHost 1705363200000) ''0'' None) = Failure TransactionNotFound \<and>
   id_t (transactions loaned ! 0) \<noteq> ''0'' \<and>
   fst (returnBook returned (utcHost 1705363200000) ''1704067200000'' None) =
     Failure TransactionNotActive \<and>
   first_at (\<lambda>t. id_t t = ''1704067200000'') (transactions loaned) 0 \<and>
   status (transactions loaned ! 0) = Active \<and>
   returnBook loaned (utcHost 1705363200000) ''1704067200000'' (Some (1 / 2)) =
     (Success (transactions returned ! 0), returned) \<and>
   fineAmount (transactions (snd (returnBook loaned (utcHost 1705363200000)
                                    ''1704067200000'' None)) ! 0) = 0"
  using returnBook_cases[of loaned "utcHost 1705363200000" "''1704067200000''" "Some (1 / 2)"]
    returnBook_cases[of loaned "utcHost 1705363200000" "''0''" None]
    returnBook_cases[of returned "utcHost 1705363200000" "''1704067200000''" None]
    returnBook_cases[of loaned "utcHost 1705363200000" "''1704067200000''" None]
  by (simp add: loaned_eval returned_eval returnBook_def first_at_def markReturned_def utcHost_def
      Let_def)

text \<open>
  C5, as amended. \<open>calculateFine\<close> leaves the state as it is. It returns 0 when no
  transaction has the identifier, when the transaction found is not active, and when
  the clock reading is at or before the due date. Otherwise it returns the product of
  doubles of the days overdue, rounded up, and the daily rate: with \<open>d\<close> the ceiling of
  the overdue milliseconds over the milliseconds of a day, the \<open>d\<close> with \<open>d - 1\<close> days
  \<open><\<close> overdue \<open>\<le> d\<close> days, and \<open>d\<close> at most \<open>2 ^ 53\<close>, the result is \<open>d\<close> times the
  rate rounded to the nearest double, which is \<open>d\<close> times the rate when that is a
  double. A loan overdue by at most one day costs exactly the daily rate, a double.
\<close>

theorem calculateFine_spec:
  "snd (calculateFine s h tid (Some rate)) = s \<and>
   (find (\<lambda>t. id_t t = tid) (transactions s) = None \<longrightarrow>
      fst (calculateFine s h tid (Some rate)) = 0) \<and>
   (\<forall>t. find (\<lambda>t. id_t t = tid) (transactions s) = Some t \<longrightarrow>
      (status t \<noteq> Active \<or> clock h 0 \<le> dueDate t \<longrightarrow>
         fst (calculateFine s h tid (Some rate)) = 0) \<and>
      (status t = Active \<and> dueDate t < clock h 0 \<longrightarrow>
         fst (calculateFine s h tid (Some rate)) =
           times64 \<lceil>rat_of_int (clock h 0 - dueDate t) / rat_of_int msPerDay\<rceil> rate \<and>
         (\<forall>d. (d - 1) * msPerDay < clock h 0 - dueDate t \<and>
               clock h 0 - dueDate t \<le> d * msPerDay \<and> d \<le> 2 ^ 53 \<longrightarrow>
            fst (calculateFine s h tid (Some rate)) = round64 (rat_of_int d * rate) \<and>
            (isDouble (rat_of_int d * rate) \<longrightarrow>
               fst (calculateFine s h tid (Some rate)) = rat_of_int d * rate)) \<and>
         (clock h 0 - dueDate t \<le> msPerDay \<and> isDouble rate \<longrightarrow>
            fst (calculateFine s h tid (Some rate)) = rate)))"
proof (intro conjI allI impI)
  show "snd (calculateFine s h tid (Some rate)) = s" by (rule calculateFine_snd)
next
  assume "find (\<lambda>t. id_t t = tid) (transactions s) = None"
  then show "fst (calculateFine s h tid (Some rate)) = 0" by (rule calculateFine_missing)
next
  fix t
  assume "find (\<lambda>t. id_t t = tid) (transactions s) = Some t"
    and "status t \<noteq> Active \<or> clock h 0 \<le> dueDate t"
  then show "fst (calculateFine s h tid (Some rate)) = 0" by (rule calculateFine_zero)
next
  fix t
  assume f: "find (\<lambda>t. id_t t = tid) (transactions s) = Some t"
    and a: "status t = Active \<and> dueDate t < clock h 0"
  then show "fst (calculateFine s h tid (Some rate)) =
           times64 \<lceil>rat_of_int (clock h 0 - dueDate t) / rat_of_int msPerDay\<rceil> rate"
    using calculateFine_overdue[of tid s t h "Some rate"] by simp
next
  fix t d
  assume f: "find (\<lambda>t. id_t t = tid) (transactions s) = Some t"
    and a: "status t = Active \<and> dueDate t < clock h 0"
    and d: "(d - 1) * msPerDay < clock h 0 - dueDate t \<and>
            clock h 0 - dueDate t \<le> d * msPerDay \<and> d \<le> 2 ^ 53"
  have "1 \<le> d" using a d days_positive[of t h d] by blast
  with d have "\<bar>d\<bar> \<le> 2 ^ 53" by simp
  then have "times64 d rate = round64 (rat_of_int d * rate)" by (rule times64_small)
  moreover have "fst (calculateFine s h tid (Some rate)) = times64 d rate"
    using calculateFine_days[of tid s t d h "Some rate"] f a d by simp
  ultimately show r: "fst (calculateFine s h tid (Some rate)) = round64 (rat_of_int d * rate)"
    by simp
  assume "isDouble (rat_of_int d * rate)"
  with r show "fst (calculateFine s h tid (Some rate)) = rat_of_int d * rate"
    by (simp add: isDouble_def)
next
  fix t
  assume f: "find (\<lambda>t. id_t t = tid) (transactions s) = Some t"
    and a: "status t = Active \<and> dueDate t < clock h 0"
    and d: "clock h 0 - dueDate t \<le> msPerDay \<and> isDouble rate"
  have "fst (calculateFine s h tid (Some rate)) = times64 1 rate"
    using calculateFine_days[of tid s t 1 h "Some rate"] f a d by simp
  also have "times64 1 rate = rate" using d by (intro times64_one) (simp add: isDouble_def)
  finally show "fst (calculateFine s h tid (Some rate)) = rate" .
qed

text \<open>
  In the scenario the loan is due at 1705276800000. One hour later (1705280400000) the
  fine at the rate 3/4 is 3/4; one millisecond after a day (1705363200001) the fine at
  the rate 1/2 is twice the rate; at the due instant it is 0; for the returned loan and
  for an unknown identifier it is 0.
\<close>

theorem calculateFine_spec_witness:
  "find (\<lambda>t. id_t t = ''1704067200000'') (transactions loaned) = Some (transactions loaned ! 0) \<and>
   status (transactions loaned ! 0) = Active \<and>
   dueDate (transactions loaned ! 0) = 1705276800000 \<and>
   isDouble (3 / 4) \<and>
   calculateFine loaned (utcHost 1705280400000) ''1704067200000'' (Some (3 / 4)) = (3 / 4, loaned) \<and>
   isDouble (rat_of_int 2 * (1 / 2)) \<and>
   calculateFine loaned (utcHost 1705363200001) ''1704067200000'' (Some (1 / 2)) = (1, loaned) \<and>
   calculateFine loaned (utcHost 1705276800000) ''1704067200000'' (Some (1 / 2)) = (0, loaned) \<and>
   find (\<lambda>t. id_t t = ''1704067200000'') (transactions returned) =
     Some (transactions returned ! 0) \<and>
   status (transactions returned ! 0) = Returned \<and>
   calculateFine returned (utcHost 1705363200001) ''1704067200000'' (Some (1 / 2)) = (0, returned) \<and>
   find (\<lambda>t. id_t t = ''0'') (transactions loaned) = None \<and>
   calculateFine loaned (utcHost 1705363200000) ''0'' (Some (1 / 2)) = (0, loaned)"
proof -
  let ?t = "transactions loaned ! 0"
  have f: "find (\<lambda>t. id_t t = ''1704067200000'') (transactions loaned) = Some ?t"
    and st: "status ?t = Active" and due: "dueDate ?t = 1705276800000"
    and f0: "find (\<lambda>t. id_t t = ''0'') (transactions loaned) = None"
    by (simp_all add: loaned_eval)
  have fr: "find (\<lambda>t. id_t t = ''1704067200000'') (transactions returned) =
      Some (transactions returned ! 0)"
    and sr: "status (transactions returned ! 0) = Returned"
    by (simp_all add: returned_eval)
  have dbl: "isDouble (3 / 4)" "isDouble (rat_of_int 2 * (1 / 2))"
    by (simp_all add: double_examples)
  have hour: "dueDate ?t < clock (utcHost 1705280400000) 0"
    "clock (utcHost 1705280400000) 0 - dueDate ?t \<le> msPerDay"
    by (simp_all add: due utcHost_def msPerDay_def)
  have a: "fst (calculateFine loaned (utcHost 1705280400000) ''1704067200000'' (Some (3 / 4))) = 3 / 4"
    using calculateFine_spec[of loaned "utcHost 1705280400000" "''1704067200000''" "3 / 4"]
      f st hour dbl(1) by blast
  have days: "dueDate ?t < clock (utcHost 1705363200001) 0"
    "(2 - 1) * msPerDay < clock (utcHost 1705363200001) 0 - dueDate ?t"
    "clock (utcHost 1705363200001) 0 - dueDate ?t \<le> 2 * msPerDay"
    "(2::int) \<le> 2 ^ 53"
    by (simp_all add: due utcHost_def msPerDay_def)
  have "fst (calculateFine loaned (utcHost 1705363200001) ''1704067200000'' (Some (1 / 2))) =
      rat_of_int 2 * (1 / 2)"
    using calculateFine_spec[of loaned "utcHost 1705363200001" "''1704067200000''" "1 / 2"]
      f st days dbl(2) by blast
  then have b: "fst (calculateFine loaned (utcHost 1705363200001) ''1704067200000''
      (Some (1 / 2))) = 1"
    by simp
  have "clock (utcHost 1705276800000) 0 \<le> dueDate ?t"
    by (simp add: due utcHost_def)
  then have c: "fst (calculateFine loaned (utcHost 1705276800000) ''1704067200000''
      (Some (1 / 2))) = 0"
    using calculateFine_spec[of loaned "utcHost 1705276800000" "''1704067200000''" "1 / 2"]
      f by blast
  have "status (transactions returned ! 0) \<noteq> Active" using sr by simp
  then have d: "fst (calculateFine returned (utcHost 1705363200001) ''1704067200000''
      (Some (1 / 2))) = 0"
    using calculateFine_spec[of returned "utcHost 1705363200001" "''1704067200000''" "1 / 2"]
      fr by blast
  have e: "fst (calculateFine loaned (utcHost 1705363200000) ''0'' (Some (1 / 2))) = 0"
    using calculateFine_spec[of loaned "utcHost 1705363200000" "''0''" "1 / 2"] f0 by blast
  have snds: "snd (calculateFine loaned (utcHost 1705280400000) ''1704067200000'' (Some (3 / 4)))
       = loaned"
    "snd (calculateFine loaned (utcHost 1705363200001) ''1704067200000'' (Some (1 / 2))) = loaned"
    "snd (calculateFine loaned (utcHost 1705276800000) ''1704067200000'' (Some (1 / 2))) = loaned"
    "snd (calculateFine returned (utcHost 1705363200001) ''1704067200000'' (Some (1 / 2)))
       = returned"
    "snd (calculateFine loaned (utcHost 1705363200000) ''0'' (Some (1 / 2))) = loaned"
    using calculateFine_spec[of loaned "utcHost 1705280400000" "''1704067200000''" "3 / 4"]
      calculateFine_spec[of loaned "utcHost 1705363200001" "''1704067200000''" "1 / 2"]
      calculateFine_spec[of loaned "utcHost 1705276800000" "''1704067200000''" "1 / 2"]
      calculateFine_spec[of returned "utcHost 1705363200001" "''1704067200000''" "1 / 2"]
      calculateFine_spec[of loaned "utcHost 1705363200000" "''0''" "1 / 2"]
    by blast+
  show ?thesis
    using f st due fr sr f0 a b c d e snds dbl
    by (simp only: prod_eq_iff fst_conv snd_conv simp_thms)
qed

text \<open>
  C5 as stated fails: the product is a product of doubles. The double nearest to one
  tenth is 3602879701896397 / 2^55. Three days after the due date of the scenario's
  loan (1705536000000) the fine at that rate is 10808639105689192 / 2^55, which prints
  as 0.30000000000000004; three times the rate is 10808639105689191 / 2^55.
\<close>

theorem calculateFine_counterexample:
  "isDouble (3602879701896397 / 36028797018963968) \<and>
   round64 (1 / 10) = 3602879701896397 / 36028797018963968 \<and>
   find (\<lambda>t. id_t t = ''1704067200000'') (transactions loaned) = Some (transactions loaned ! 0) \<and>
   status (transactions loaned ! 0) = Active \<and>
   \<lceil>rat_of_int (clock (utcHost 1705536000000) 0 - dueDate (transactions loaned ! 0)) /
     rat_of_int msPerDay\<rceil> = 3 \<and>
   fst (calculateFine loaned (utcHost 1705536000000) ''1704067200000''
          (Some (3602879701896397 / 36028797018963968))) =
     10808639105689192 / 36028797018963968 \<and>
   rat_of_int 3 * (3602879701896397 / 36028797018963968) =
     10808639105689191 / 36028797018963968 \<and>
   fst (calculateFine loaned (utcHost 1705536000000) ''1704067200000''
          (Some (3602879701896397 / 36028797018963968))) \<noteq>
     rat_of_int 3 * (3602879701896397 / 36028797018963968)"
proof -
  let ?t = "transactions loaned ! 0"
  let ?r = "3602879701896397 / 36028797018963968 :: rat"
  have f: "find (\<lambda>t. id_t t = ''1704067200000'') (transactions loaned) = Some ?t"
    and st: "status ?t = Active"
    by (simp_all add: loaned_eval)
  have d: "(3 - 1) * msPerDay < clock (utcHost 1705536000000) 0 - dueDate ?t"
    "clock (utcHost 1705536000000) 0 - dueDate ?t \<le> 3 * msPerDay"
    "dueDate ?t < clock (utcHost 1705536000000) 0"
    by (simp_all add: loaned_eval utcHost_def msPerDay_def)
  have c: "\<lceil>rat_of_int (clock (utcHost 1705536000000) 0 - dueDate ?t) / rat_of_int msPerDay\<rceil> = 3"
    using d(1,2) by (simp only: ceiling_days)
  have "fst (calculateFine loaned (utcHost 1705536000000) ''1704067200000'' (Some ?r)) =
      times64 3 ?r"
    using calculateFine_days[OF f st d(1,2,3), of "Some ?r"] by simp
  then have v: "fst (calculateFine loaned (utcHost 1705536000000) ''1704067200000'' (Some ?r)) =
      10808639105689192 / 36028797018963968"
    by (simp only: double_examples)
  have p: "rat_of_int 3 * ?r = 10808639105689191 / 36028797018963968" by simp
  have ne: "(10808639105689192 / 36028797018963968 :: rat) \<noteq>
      10808639105689191 / 36028797018963968" by simp
  show ?thesis
    using f st c v p ne double_examples(4,5)
    by (simp only: simp_thms)
qed

text \<open>
  C6. In a state reached from the empty ledger, take a transaction that is returned.
  After any further calls it is still at its place in the ledger with all its fields as
  they were, return date and fine included, and \<open>returnBook\<close> on its identifier fails
  with "This book is not currently checked out" and leaves the state as it is.
\<close>

theorem returned_is_terminal:
  assumes "s = execs (emptyLedger bs) cs"
    and "i < length (transactions s)"
    and "status (transactions s ! i) = Returned"
  shows "i < length (transactions (execs s cs')) \<and>
         transactions (execs s cs') ! i = transactions s ! i \<and>
         returnBook (execs s cs') h (id_t (transactions s ! i)) fine =
           (Failure TransactionNotActive, execs s cs')"
proof -
  let ?s' = "execs s cs'"
  have kept: "i < length (transactions ?s')" "transactions ?s' ! i = transactions s ! i"
    using execs_returned_kept[OF assms(2,3), of cs'] by simp_all
  have "\<forall>i<length (transactions (emptyLedger bs)).
      status (transactions (emptyLedger bs) ! i) = Returned \<longrightarrow>
      first_at (\<lambda>t. id_t t = id_t (transactions (emptyLedger bs) ! i))
        (transactions (emptyLedger bs)) i"
    by (simp add: emptyLedger_def)
  then have "\<forall>i<length (transactions s). status (transactions s ! i) = Returned \<longrightarrow>
      first_at (\<lambda>t. id_t t = id_t (transactions s ! i)) (transactions s) i"
    unfolding assms(1) by (rule execs_returned_first)
  then have "\<forall>i<length (transactions ?s'). status (transactions ?s' ! i) = Returned \<longrightarrow>
      first_at (\<lambda>t. id_t t = id_t (transactions ?s' ! i)) (transactions ?s') i"
    by (rule execs_returned_first)
  with kept assms(3) have fa: "first_at (\<lambda>t. id_t t = id_t (transactions s ! i)) (transactions ?s') i"
    by metis
  have "status (transactions ?s' ! i) \<noteq> Active" using kept(2) assms(3) by simp
  with fa have "returnBook ?s' h (id_t (transactions s ! i)) fine = (Failure TransactionNotActive, ?s')"
    by (rule returnBook_not_active)
  with kept show ?thesis by simp
qed

text \<open>
  In the scenario the first loan is returned with a fine of one half; the item is then
  checked out again, and a second return of the first loan, with a fine of 3, fails.
\<close>

theorem returned_is_terminal_witness:
  "status (transactions returned ! 0) = Returned \<and>
   id_t (transactions returned ! 0) = ''1704067200000'' \<and>
   reloaned = execs returned
     [CheckoutBook (utcHost 1705449600000) ''ITEM1'' ''1704000000000'' None] \<and>
   transactions reloaned ! 0 = transactions returned ! 0 \<and>
   fineAmount (transactions reloaned ! 0) = 1 / 2 \<and>
   returnDate (transactions reloaned ! 0) = Some 1705363200000 \<and>
   returnBook reloaned (utcHost 1705536000000) ''1704067200000'' (Some 3) =
     (Failure TransactionNotActive, reloaned)"
proof -
  have i: "0 < length (transactions returned)"
    and r: "status (transactions returned ! 0) = Returned"
    and idt: "id_t (transactions returned ! 0) = ''1704067200000''"
    by (simp_all add: returned_eval)
  from returned_is_terminal[OF scenario_calls(2) i r,
      of "[CheckoutBook (utcHost 1705449600000) ''ITEM1'' ''1704000000000'' None]"
         "utcHost 1705536000000" "Some 3"]
  have "transactions reloaned ! 0 = transactions returned ! 0"
    "returnBook reloaned (utcHost 1705536000000) ''1704067200000'' (Some 3) =
       (Failure TransactionNotActive, reloaned)"
    by (simp_all add: reloaned_def idt)
  moreover have "fineAmount (transactions returned ! 0) = 1 / 2"
    "returnDate (transactions returned ! 0) = Some 1705363200000"
    by (simp_all add: returned_eval)
  ultimately show ?thesis using r idt by (simp add: reloaned_def)
qed

text \<open>
  C7, as amended. In every state reached from the empty ledger the fine of an active
  transaction is 0, and every fine is non-negative provided no call passed a negative
  fine to \<open>returnBook\<close>. A successful \<open>returnBook\<close> sets the fine to the amount passed,
  or to 0 when none is passed, whatever its sign. A returned transaction keeps all its
  fields, the fine included, through any further calls.
\<close>

theorem fine_amount_invariant:
  "(\<forall>t\<in>set (transactions (execs (emptyLedger bs) cs)). status t = Active \<longrightarrow> fineAmount t = 0) \<and>
   ((\<forall>c\<in>set cs. nonneg_fine c) \<longrightarrow>
      (\<forall>t\<in>set (transactions (execs (emptyLedger bs) cs)). 0 \<le> fineAmount t)) \<and>
   (\<forall>t s'. returnBook s h tid fine = (Success t, s') \<longrightarrow>
      status t = Returned \<and> fineAmount t = (case fine of None \<Rightarrow> 0 | Some v \<Rightarrow> v) \<and>
      t \<in> set (transactions s')) \<and>
   (\<forall>i<length (transactions s). status (transactions s ! i) = Returned \<longrightarrow>
      i < length (transactions (execs s cs')) \<and>
      transactions (execs s cs') ! i = transactions s ! i)"
proof (intro conjI)
  show "\<forall>t\<in>set (transactions (execs (emptyLedger bs) cs)). status t = Active \<longrightarrow> fineAmount t = 0"
    by (rule execs_active_unfined) (simp add: emptyLedger_def)
next
  show "(\<forall>c\<in>set cs. nonneg_fine c) \<longrightarrow>
      (\<forall>t\<in>set (transactions (execs (emptyLedger bs) cs)). 0 \<le> fineAmount t)"
  proof
    assume "\<forall>c\<in>set cs. nonneg_fine c"
    moreover have "\<forall>t\<in>set (transactions (emptyLedger bs)). 0 \<le> fineAmount t"
      by (simp add: emptyLedger_def)
    ultimately show "\<forall>t\<in>set (transactions (execs (emptyLedger bs) cs)). 0 \<le> fineAmount t"
      by (intro execs_nonneg)
  qed
next
  show "\<forall>t s'. returnBook s h tid fine = (Success t, s') \<longrightarrow>
      status t = Returned \<and> fineAmount t = (case fine of None \<Rightarrow> 0 | Some v \<Rightarrow> v) \<and>
      t \<in> set (transactions s')"
    using returnBook_success[of s h tid fine] by blast
next
  show "\<forall>i<length (transactions s). status (transactions s ! i) = Returned \<longrightarrow>
      i < length (transactions (execs s cs')) \<and>
      transactions (execs s cs') ! i = transactions s ! i"
    using execs_returned_kept[of _ s cs'] by blast
qed

theorem fine_amount_invariant_witness:
  "status (transactions reloaned ! 1) = Active \<and>
   fineAmount (transactions reloaned ! 1) = 0 \<and>
   nonneg_fine (ReturnBook (utcHost 1705363200000) ''1704067200000'' (Some (1 / 2))) \<and>
   0 \<le> fineAmount (transactions reloaned ! 0) \<and>
   returnBook loaned (utcHost 1705363200000) ''1704067200000'' (Some (1 / 2)) =
     (Success (transactions returned ! 0), returned) \<and>
   status (transactions returned ! 0) = Returned \<and>
   fineAmount (transactions returned ! 0) = 1 / 2 \<and>
   transactions (execs returned
      [CheckoutBook (utcHost 1705449600000) ''ITEM1'' ''1704000000000'' None,
       CalculateFine (utcHost 1705536000000) ''1704067200000'' None]) ! 0 =
     transactions returned ! 0"
proof -
  let ?cs = "[RegisterBorrower (utcHost 1704000000000) ada,
      CheckoutBook (utcHost 1704067200000) ''ITEM1'' ''1704000000000'' (Some 14),
      ReturnBook (utcHost 1705363200000) ''1704067200000'' (Some (1 / 2)),
      CheckoutBook (utcHost 1705449600000) ''ITEM1'' ''1704000000000'' None]"
  let ?cs' = "[CheckoutBook (utcHost 1705449600000) ''ITEM1'' ''1704000000000'' None,
       CalculateFine (utcHost 1705536000000) ''1704067200000'' None]"
  note inst = fine_amount_invariant[of "[]" ?cs loaned "utcHost 1705363200000"
      "''1704067200000''" "Some (1 / 2)" ?cs', folded scenario_calls(3)]
  have mem: "transactions reloaned ! 1 \<in> set (transactions reloaned)"
    "transactions reloaned ! 0 \<in> set (transactions reloaned)"
    by (simp_all add: reloaned_eval)
  have act: "status (transactions reloaned ! 1) = Active" by (simp add: reloaned_eval)
  have nn: "\<forall>c\<in>set ?cs. nonneg_fine c" by simp
  have rb: "returnBook loaned (utcHost 1705363200000) ''1704067200000'' (Some (1 / 2)) =
     (Success (transactions returned ! 0), returned)"
    by (simp add: loaned_eval returned_eval returnBook_def markReturned_def utcHost_def Let_def)
  have a: "fineAmount (transactions reloaned ! 1) = 0" using inst mem(1) act by blast
  have b: "0 \<le> fineAmount (transactions reloaned ! 0)" using inst mem(2) nn by blast
  have c: "status (transactions returned ! 0) = Returned \<and>
      fineAmount (transactions returned ! 0) = (case Some (1 / 2) of None \<Rightarrow> 0 | Some v \<Rightarrow> v)"
    using inst rb by blast
  note inst' = fine_amount_invariant[of "[]" ?cs returned "utcHost 1705363200000"
      "''1704067200000''" "Some (1 / 2)" ?cs']
  have len: "0 < length (transactions returned)" by (simp add: returned_eval)
  have d: "transactions (execs returned ?cs') ! 0 = transactions returned ! 0"
    using inst' len c by blast
  show ?thesis using act a b c d rb by simp
qed

text \<open>
  C7 as stated fails: a negative fine passed to \<open>returnBook\<close> is stored.
\<close>

theorem fine_amount_counterexample:
  "refunded = execs (emptyLedger [])
     [RegisterBorrower (utcHost 1704000000000) ada,
      CheckoutBook (utcHost 1704067200000) ''ITEM1'' ''1704000000000'' (Some 14),
      ReturnBook (utcHost 1705363200000) ''1704067200000'' (Some (- 1))] \<and>
   status (transactions refunded ! 0) = Returned \<and>
   fineAmount (transactions refunded ! 0) = - 1 \<and>
   fineAmount (transactions refunded ! 0) < 0"
  by (intro conjI scenario_calls(4)) (simp_all add: refunded_eval)

text \<open>
  C8. \<open>getOverdueBooks\<close> leaves the state as it is and returns, in ledger order, the
  transactions that are active and whose due date is strictly before the clock reading:
  a transaction due exactly at the clock reading is not returned, and a returned
  transaction is never returned.
\<close>

theorem getOverdueBooks_spec:
  "snd (getOverdueBooks s h) = s \<and>
   fst (getOverdueBooks s h) =
     filter (\<lambda>t. status t = Active \<and> dueDate t < clock h 0) (transactions s) \<and>
   (\<forall>t. t \<in> set (fst (getOverdueBooks s h)) \<longleftrightarrow>
        t \<in> set (transactions s) \<and> status t = Active \<and> dueDate t < clock h 0) \<and>
   (\<forall>t\<in>set (transactions s). dueDate t = clock h 0 \<or> status t = Returned \<longrightarrow>
        t \<notin> set (fst (getOverdueBooks s h)))"
proof -
  have eq: "(\<lambda>t. if status t \<noteq> Active then False else dueDate t < clock h 0) =
            (\<lambda>t. status t = Active \<and> dueDate t < clock h 0)"
    by auto
  show ?thesis
    by (auto simp: getOverdueBooks_def Let_def eq)
qed

theorem getOverdueBooks_spec_witness:
  "dueDate (transactions loaned ! 0) = 1705276800000 \<and>
   getOverdueBooks loaned (utcHost 1705276800000) = ([], loaned) \<and>
   getOverdueBooks loaned (utcHost 1705276800001) = ([transactions loaned ! 0], loaned) \<and>
   status (transactions returned ! 0) = Returned \<and>
   getOverdueBooks returned (utcHost 1705536000000) = ([], returned)"
  using getOverdueBooks_spec[of loaned "utcHost 1705276800000"]
    getOverdueBooks_spec[of loaned "utcHost 1705276800001"]
    getOverdueBooks_spec[of returned "utcHost 1705536000000"]
  by (simp add: loaned_eval returned_eval getOverdueBooks_def utcHost_def)

text \<open>
  C9, as amended. \<open>registerBorrower\<close> fails with "Borrower name is required" exactly
  when the name is empty after trimming. A failure leaves the state as it is, and a
  success appends to the directory a borrower whose identifier is the decimal text of
  the clock reading and whose fields are the sanitized arguments. In a directory built
  from the empty one by registrations whose emails sanitization left unchanged, the
  call fails with "Borrower with this email already exists" exactly when the name is
  not empty after trimming, an email is supplied, and a borrower of the directory
  supplied the same email up to letter case; with a name that is not empty after
  trimming and no such email, it succeeds. Nothing is said of emails that sanitization
  changes.
\<close>

theorem registerBorrower_cases:
  "(fst (registerBorrower s h d) = Failure MissingName \<longleftrightarrow> trim (name d) = []) \<and>
   ((\<exists>e. fst (registerBorrower s h d) = Failure e) \<longrightarrow> snd (registerBorrower s h d) = s) \<and>
   (\<forall>b. fst (registerBorrower s h d) = Success b \<longrightarrow>
        snd (registerBorrower s h d) = s\<lparr>borrowers := borrowers s @ [b]\<rparr> \<and>
        id_b b = toString (clock h 0) \<and>
        name_b b = sanitize (name d) \<and>
        email_b b = sanitizeOpt (email d) \<and>
        phone_b b = sanitizeOpt (phone d) \<and>
        address_b b = sanitizeOpt (address d)) \<and>
   ((\<forall>d'\<in>set (accepted (emptyLedger []) cs). sanitize (suppliedEmail d') = suppliedEmail d') \<longrightarrow>
      (fst (registerBorrower (execs (emptyLedger []) cs) h d) = Failure DuplicateEmail \<longleftrightarrow>
         trim (name d) \<noteq> [] \<and> suppliedEmail d \<noteq> [] \<and>
         (\<exists>d'\<in>set (accepted (emptyLedger []) cs).
            toLowerCase (suppliedEmail d') = toLowerCase (suppliedEmail d))) \<and>
      (trim (name d) \<noteq> [] \<and>
       \<not> (suppliedEmail d \<noteq> [] \<and>
          (\<exists>d'\<in>set (accepted (emptyLedger []) cs).
             toLowerCase (suppliedEmail d') = toLowerCase (suppliedEmail d))) \<longrightarrow>
         (\<exists>b. fst (registerBorrower (execs (emptyLedger []) cs) h d) = Success b)))"
proof (intro conjI impI allI)
  show "(fst (registerBorrower s h d) = Failure MissingName) = (trim (name d) = [])"
    using registerBorrower_stored[of s h d] by blast
next
  assume "\<exists>e. fst (registerBorrower s h d) = Failure e"
  then show "snd (registerBorrower s h d) = s"
    using registerBorrower_stored[of s h d] by blast
next
  fix b
  assume b: "fst (registerBorrower s h d) = Success b"
  then have ok: "trim (name d) \<noteq> []"
    "\<not> (\<exists>x. email d = Some x \<and> x \<noteq> [] \<and>
           (\<exists>b\<in>set (borrowers s). toLowerCase (email_b b) = toLowerCase x))"
    using registerBorrower_stored[of s h d] by auto
  then obtain b' where b': "registerBorrower s h d = (Success b', s\<lparr>borrowers := borrowers s @ [b']\<rparr>)"
    "id_b b' = toString (clock h 0)" "name_b b' = sanitize (name d)"
    "email_b b' = sanitizeOpt (email d)" "phone_b b' = sanitizeOpt (phone d)"
    "address_b b' = sanitizeOpt (address d)"
    using registerBorrower_stored[of s h d] by blast
  with b have eq: "b' = b" by simp
  show "snd (registerBorrower s h d) = s\<lparr>borrowers := borrowers s @ [b]\<rparr>"
    using b'(1) eq by simp
  show "id_b b = toString (clock h 0)" using b'(2) eq by simp
  show "name_b b = sanitize (name d)" using b'(3) eq by simp
  show "email_b b = sanitizeOpt (email d)" using b'(4) eq by simp
  show "phone_b b = sanitizeOpt (phone d)" using b'(5) eq by simp
  show "address_b b = sanitizeOpt (address d)" using b'(6) eq by simp
next
  let ?s = "execs (emptyLedger []) cs"
  let ?acc = "accepted (emptyLedger []) cs"
  assume st: "\<forall>d'\<in>set ?acc. sanitize (suppliedEmail d') = suppliedEmail d'"
  have "set (map email_b (borrowers ?s)) = set (map suppliedEmail ?acc)"
    using stored_as_supplied[OF st] by simp
  then have same: "(\<exists>b\<in>set (borrowers ?s). toLowerCase (email_b b) = toLowerCase x) \<longleftrightarrow>
      (\<exists>d'\<in>set ?acc. toLowerCase (suppliedEmail d') = toLowerCase x)" for x
    by (auto simp: image_iff) (metis image_iff)+
  have dup: "(\<exists>x. email d = Some x \<and> x \<noteq> [] \<and>
           (\<exists>b\<in>set (borrowers ?s). toLowerCase (email_b b) = toLowerCase x)) \<longleftrightarrow>
      suppliedEmail d \<noteq> [] \<and>
      (\<exists>d'\<in>set ?acc. toLowerCase (suppliedEmail d') = toLowerCase (suppliedEmail d))"
    by (simp only: same supplied_iff)
  show "(fst (registerBorrower ?s h d) = Failure DuplicateEmail) =
        (trim (name d) \<noteq> [] \<and> suppliedEmail d \<noteq> [] \<and>
         (\<exists>d'\<in>set ?acc. toLowerCase (suppliedEmail d') = toLowerCase (suppliedEmail d)))"
    using registerBorrower_stored[of ?s h d] dup by blast
  assume "trim (name d) \<noteq> [] \<and>
       \<not> (suppliedEmail d \<noteq> [] \<and>
          (\<exists>d'\<in>set ?acc. toLowerCase (suppliedEmail d') = toLowerCase (suppliedEmail d)))"
  then obtain b where "registerBorrower ?s h d = (Success b, ?s\<lparr>borrowers := borrowers ?s @ [b]\<rparr>)"
    using registerBorrower_stored[of ?s h d] dup by blast
  then have "fst (registerBorrower ?s h d) = Success b" by simp
  then show "\<exists>b. fst (registerBorrower ?s h d) = Success b" ..
qed

text \<open>
  In the scenario the directory holds Ada, who supplied the email A@x.com, which
  sanitization leaves unchanged. A blank name is refused; a second borrower with the
  email a@X.COM is refused as a duplicate; Bob, with no email, is appended with the
  clock reading as identifier.
\<close>

theorem registerBorrower_cases_witness:
  "registered = execs (emptyLedger []) [RegisterBorrower (utcHost 1704000000000) ada] \<and>
   accepted (emptyLedger []) [RegisterBorrower (utcHost 1704000000000) ada] = [ada] \<and>
   sanitize (suppliedEmail ada) = suppliedEmail ada \<and>
   trim (name blank) = [] \<and>
   registerBorrower registered (utcHost 1704000000001) blank = (Failure MissingName, registered) \<and>
   trim (name lovelace) \<noteq> [] \<and>
   suppliedEmail lovelace \<noteq> [] \<and>
   toLowerCase (suppliedEmail ada) = toLowerCase (suppliedEmail lovelace) \<and>
   registerBorrower registered (utcHost 1704000000001) lovelace =
     (Failure DuplicateEmail, registered) \<and>
   trim (name bob) \<noteq> [] \<and>
   suppliedEmail bob = [] \<and>
   fst (registerBorrower registered (utcHost 1704000000001) bob) =
     Success \<lparr> id_b = ''1704000000001'', name_b = ''Bob'', email_b = [], phone_b = [],
               address_b = [], createdAt_b = 1704000000001 \<rparr> \<and>
   length (borrowers (snd (registerBorrower registered (utcHost 1704000000001) bob))) = 2"
proof -
  let ?h = "utcHost 1704000000001"
  let ?cs = "[RegisterBorrower (utcHost 1704000000000) ada]"
  have reg: "registered = execs (emptyLedger []) ?cs" by (simp add: registered_def)
  have r: "fst (registerBorrower (emptyLedger []) (utcHost 1704000000000) ada) =
      Success \<lparr> id_b = ''1704000000000'', name_b = ''Ada'', email_b = ''A@x.com'',
                phone_b = [], address_b = [], createdAt_b = 1704000000000 \<rparr>"
    by (simp add: emptyLedger_def registerBorrower_def ada_def utcHost_def truthy_def
        sanitizeOpt_def toString_examples sanitize_examples trim_examples Let_def)
  have acc: "accepted (emptyLedger []) ?cs = [ada]"
    unfolding accepted.simps call.case r outcome.case by simp
  have sup: "suppliedEmail ada = ''A@x.com''" "suppliedEmail lovelace = ''a@X.COM''"
    "suppliedEmail bob = []"
    by (simp_all add: suppliedEmail_def ada_def lovelace_def bob_def)
  have fixed: "sanitize (suppliedEmail ada) = suppliedEmail ada"
    by (simp add: sup sanitize_examples)
  then have st: "\<forall>d'\<in>set (accepted (emptyLedger []) ?cs). sanitize (suppliedEmail d') = suppliedEmail d'"
    unfolding acc by simp
  have mem: "ada \<in> set (accepted (emptyLedger []) ?cs)" unfolding acc by simp
  have b1: "trim (name blank) = []"
    by (simp add: blank_def trim_def isWhiteSpace_def)
  have "fst (registerBorrower registered ?h blank) = Failure MissingName"
    using registerBorrower_cases[of registered ?h blank] b1 by blast
  moreover from this have "snd (registerBorrower registered ?h blank) = registered"
    using registerBorrower_cases[of registered ?h blank] by blast
  ultimately have blank: "registerBorrower registered ?h blank = (Failure MissingName, registered)"
    by (simp add: prod_eq_iff)
  have l1: "trim (name lovelace) \<noteq> []" "suppliedEmail lovelace \<noteq> []"
    by (simp_all add: suppliedEmail_def lovelace_def trim_def isWhiteSpace_def)
  have l2: "toLowerCase (suppliedEmail ada) = toLowerCase (suppliedEmail lovelace)"
    by (simp add: sup toLowerCase_examples)
  have "fst (registerBorrower (execs (emptyLedger []) ?cs) ?h lovelace) = Failure DuplicateEmail"
    using registerBorrower_cases[of registered ?h lovelace ?cs] st l1 l2 mem by blast
  then have fd: "fst (registerBorrower registered ?h lovelace) = Failure DuplicateEmail"
    by (simp only: reg)
  then have "snd (registerBorrower registered ?h lovelace) = registered"
    using registerBorrower_cases[of registered ?h lovelace] by blast
  with fd have dup: "registerBorrower registered ?h lovelace = (Failure DuplicateEmail, registered)"
    by (simp add: prod_eq_iff)
  have o1: "trim (name bob) \<noteq> []"
    by (simp add: bob_def trim_def isWhiteSpace_def)
  have "\<exists>b. fst (registerBorrower (execs (emptyLedger []) ?cs) ?h bob) = Success b"
    using registerBorrower_cases[of registered ?h bob ?cs] st o1 sup(3) by blast
  then obtain b where b: "fst (registerBorrower registered ?h bob) = Success b"
    by (auto simp only: reg)
  then have sb: "snd (registerBorrower registered ?h bob) =
      registered\<lparr>borrowers := borrowers registered @ [b]\<rparr>"
    using registerBorrower_cases[of registered ?h bob] by blast
  have fb: "fst (registerBorrower registered ?h bob) =
     Success \<lparr> id_b = ''1704000000001'', name_b = ''Bob'', email_b = [], phone_b = [],
               address_b = [], createdAt_b = 1704000000001 \<rparr>"
    by (simp add: registerBorrower_def bob_def trim_def isWhiteSpace_def truthy_def utcHost_def
        sanitizeOpt_def sanitize_def innerHTML_def escapeChar_def toString_def digits.simps
        digitChar_def Let_def)
  have len: "length (borrowers (snd (registerBorrower registered ?h bob))) = 2"
    using sb by (simp add: registered_eval)
  show ?thesis
    using reg acc fixed b1 blank l1 l2 dup o1 sup(3) fb len
    by (simp only: simp_thms)
qed

text \<open>
  C9 as stated fails twice. With a blank name and an email that a borrower already has,
  the call fails with "Borrower name is required", not with the duplicate-email failure.
  And the identifier is not new when the clock has not moved: Bob, registered at the
  clock reading of Ada's registration, gets Ada's identifier.
\<close>

theorem registerBorrower_counterexample:
  "email blank = Some ''a@X.COM'' \<and>
   toLowerCase (email_b (borrowers registered ! 0)) = toLowerCase ''a@X.COM'' \<and>
   fst (registerBorrower registered (utcHost 1704000000001) blank) = Failure MissingName \<and>
   fst (registerBorrower registered (utcHost 1704000000001) blank) \<noteq> Failure DuplicateEmail \<and>
   fst (registerBorrower registered (utcHost 1704000000000) bob) =
     Success \<lparr> id_b = ''1704000000000'', name_b = ''Bob'', email_b = [], phone_b = [],
               address_b = [], createdAt_b = 1704000000000 \<rparr> \<and>
   id_b (borrowers registered ! 0) = ''1704000000000'' \<and>
   id_b (borrowers (snd (registerBorrower registered (utcHost 1704000000000) bob)) ! 1) =
     id_b (borrowers (snd (registerBorrower registered (utcHost 1704000000000) bob)) ! 0)"
  by (simp add: registered_eval registerBorrower_def blank_def bob_def trim_def isWhiteSpace_def
      truthy_def utcHost_def toLowerCase_examples sanitizeOpt_def sanitize_def
      innerHTML_def escapeChar_def toString_examples Let_def)

text \<open>
  C10. \<open>calculateFine\<close> called without a daily rate is \<open>calculateFine\<close> called with the
  rate one half: for an active transaction overdue by \<open>d\<close> days, \<open>d \<ge> 1\<close> (more than
  \<open>d - 1\<close> days and at most \<open>d\<close> days past the due date), it returns \<open>d\<close> halves.
\<close>

theorem calculateFine_default_rate:
  "calculateFine s h tid None = calculateFine s h tid (Some (1 / 2)) \<and>
   (\<forall>t d. find (\<lambda>t. id_t t = tid) (transactions s) = Some t \<and> status t = Active \<and>
          1 \<le> d \<and> (d - 1) * msPerDay < clock h 0 - dueDate t \<and>
          clock h 0 - dueDate t \<le> d * msPerDay \<longrightarrow>
      fst (calculateFine s h tid None) = rat_of_int d * (1 / 2))"
proof (intro conjI allI impI)
  show "calculateFine s h tid None = calculateFine s h tid (Some (1 / 2))"
    by (simp add: calculateFine_def)
next
  fix t d
  assume a: "find (\<lambda>t. id_t t = tid) (transactions s) = Some t \<and> status t = Active \<and>
          1 \<le> d \<and> (d - 1) * msPerDay < clock h 0 - dueDate t \<and>
          clock h 0 - dueDate t \<le> d * msPerDay"
  then have "0 \<le> (d - 1) * msPerDay" by (simp add: msPerDay_def)
  with a have "dueDate t < clock h 0" by linarith
  with a have "fst (calculateFine s h tid None) = times64 d (1 / 2)"
    using calculateFine_days[of tid s t d h None] by simp
  also have "times64 d (1 / 2) = rat_of_int d * (1 / 2)"
    using a by (intro times64_half) simp
  finally show "fst (calculateFine s h tid None) = rat_of_int d * (1 / 2)" .
qed

text \<open>Three days after the due date of the scenario's loan the default fine is 3/2.\<close>

theorem calculateFine_default_rate_witness:
  "find (\<lambda>t. id_t t = ''1704067200000'') (transactions loaned) = Some (transactions loaned ! 0) \<and>
   status (transactions loaned ! 0) = Active \<and>
   (3 - 1) * msPerDay < clock (utcHost 1705536000000) 0 - dueDate (transactions loaned ! 0) \<and>
   clock (utcHost 1705536000000) 0 - dueDate (transactions loaned ! 0) \<le> 3 * msPerDay \<and>
   fst (calculateFine loaned (utcHost 1705536000000) ''1704067200000'' None) = 3 / 2"
proof -
  let ?t = "transactions loaned ! 0"
  have f: "find (\<lambda>t. id_t t = ''1704067200000'') (transactions loaned) = Some ?t"
    and st: "status ?t = Active"
    by (simp_all add: loaned_eval)
  have d: "(1::int) \<le> 3" "(3 - 1) * msPerDay < clock (utcHost 1705536000000) 0 - dueDate ?t"
    "clock (utcHost 1705536000000) 0 - dueDate ?t \<le> 3 * msPerDay"
    by (simp_all add: loaned_eval utcHost_def msPerDay_def)
  have "fst (calculateFine loaned (utcHost 1705536000000) ''1704067200000'' None) =
      rat_of_int 3 * (1 / 2)"
    using calculateFine_default_rate[of loaned "utcHost 1705536000000" "''1704067200000''"]
      f st d by blast
  then have "fst (calculateFine loaned (utcHost 1705536000000) ''1704067200000'' None) = 3 / 2"
    by simp
  with f st d show ?thesis by simp
qed

end
